theory Spec2Isabelle
  imports Main
begin

section \<open>The world the stream binding runs in\<close>

text \<open>
  The bridge of \<^verbatim>\<open>luv_stream.c\<close> sits between the scripting runtime (a value stack, a
  registry of references) and the native event loop (handles, requests, malloc'ed
  blocks). Every function of the file is modelled as a transformer of one record
  holding both sides. Pointers are numbers: address 0 is NULL.
\<close>

type_synonym handle_id = nat
type_synonym buf_id = nat
type_synonym addr = nat
type_synonym lua_ref = int

text \<open>The error codes of the native layer; only \<^verbatim>\<open>UV_EOF\<close> is told apart by the source.\<close>

datatype uv_err_code = UV_OK | UV_EOF | UV_ERRNO nat

text \<open>
  Script values: nil, numbers (integral ones are all the source pushes), strings,
  functions (by identity), the userdata of a handle, the userdata of a buffer, and the
  error value built by \<^verbatim>\<open>luv_push_async_error\<close> (operation name and native error).
\<close>

datatype lua_value =
    LNil
  | LInteger int
  | LString string
  | LFunction nat
  | LUserdata handle_id
  | LBuffer buf_id
  | LError string uv_err_code

text \<open>The buffer capability: bytes and the read-only flag; \<^verbatim>\<open>length\<close> is the byte count.\<close>

record buffer =
  bdata :: string
  isConst :: int

definition blength :: "buffer \<Rightarrow> nat" where
  "blength b = length (bdata b)"

text \<open>
  \<^verbatim>\<open>luv_handle_t\<close> together with the native stream it wraps: the keep-alive count, the
  registry slot \<^verbatim>\<open>ref\<close>, the buffer of the most recent read, and the listeners of the
  userdata, keyed by event name, in registration order.
\<close>

record luv_handle =
  refCount :: int
  href :: lua_ref
  hbuffer :: buf_id
  listeners :: "string \<Rightarrow> lua_value list"

text \<open>\<^verbatim>\<open>luv_io_ctx_t\<close>: the callback reference and the data reference.\<close>

record luv_io_ctx =
  rcb :: lua_ref
  rdata :: lua_ref

text \<open>A native request header: the user pointer \<^verbatim>\<open>data\<close> and the handle it runs on.\<close>

record uv_req =
  req_data :: addr
  req_handle :: handle_id

text \<open>What the bridge asks of the native layer, in order.\<close>

datatype uv_call =
    UvListen handle_id int
  | UvAccept handle_id handle_id
  | UvReadStart handle_id
  | UvReadStop handle_id
  | UvWrite addr handle_id buf_id nat
  | UvShutdown addr handle_id

text \<open>
  What reaches script code, in order: an event emitted on a handle with its arguments,
  and a callable invoked with its arguments (the last field is the source name given to
  \<^verbatim>\<open>luv_acall\<close>).
\<close>

datatype effect =
    Emit handle_id string "lua_value list"
  | Invoke lua_value "lua_value list" string

datatype error =
    LuaError string
  | LuaErrorUv string uv_err_code
  | NullDeref
  | InvalidPointer
  | DoubleFree
  | AssertionFailed

text \<open>
  The trace pairs every effect with the buffers as they were when it happened: this is
  what a listener running at that moment observes.
\<close>

record world =
  stack :: "lua_value list"
  registry :: "lua_ref \<rightharpoonup> lua_value"
  ref_top :: nat
  handles :: "handle_id \<rightharpoonup> luv_handle"
  buffers :: "buf_id \<rightharpoonup> buffer"
  next_buf :: buf_id
  live :: "addr set"
  heap_top :: addr
  malloc_budget :: nat
  free_log :: "addr list"
  reqs :: "addr \<rightharpoonup> uv_req"
  ctxs :: "addr \<rightharpoonup> luv_io_ctx"
  last_error :: uv_err_code
  uv_log :: "uv_call list"
  trace :: "(effect \<times> (buf_id \<rightharpoonup> buffer)) list"
  environ :: "string list"

text \<open>
  A C function of the file either returns (\<open>Inr\<close>) or does not: a script error raised
  with \<^verbatim>\<open>luaL_error\<close> (a long jump out of the function) or a fault (\<open>Inl\<close>). The world at
  the moment of the jump is kept, since what was done before it stays done.
\<close>

type_synonym res = "(error \<times> world) + world"
type_synonym cres = "(error \<times> world) + (int \<times> world)"

section \<open>The stack and the registry of the scripting runtime\<close>

text \<open>
  The C API of the runtime, after its reference manual. Index 1 is the bottom of the
  frame, index -1 the top. An index beyond the top reads as nil.
\<close>

definition LUA_NOREF :: lua_ref where "LUA_NOREF = -2"
definition LUA_REFNIL :: lua_ref where "LUA_REFNIL = -1"

definition index2adr :: "world \<Rightarrow> int \<Rightarrow> lua_value option" where
  "index2adr s i =
     (let n = int (length (stack s)) in
      if 0 < i \<and> i \<le> n then Some (stack s ! nat (i - 1))
      else if i < 0 \<and> - i \<le> n then Some (stack s ! nat (n + i))
      else None)"

definition lua_push :: "lua_value \<Rightarrow> world \<Rightarrow> world" where
  "lua_push v s = s\<lparr>stack := stack s @ [v]\<rparr>"

definition lua_pushvalue :: "int \<Rightarrow> world \<Rightarrow> world" where
  "lua_pushvalue i s = lua_push (case index2adr s i of Some v \<Rightarrow> v | None \<Rightarrow> LNil) s"

definition lua_pushinteger :: "int \<Rightarrow> world \<Rightarrow> world" where
  "lua_pushinteger n s = lua_push (LInteger n) s"

definition lua_pop :: "nat \<Rightarrow> world \<Rightarrow> world" where
  "lua_pop n s = s\<lparr>stack := take (length (stack s) - n) (stack s)\<rparr>"

definition lua_remove :: "int \<Rightarrow> world \<Rightarrow> world" where
  "lua_remove i s =
     (let n = int (length (stack s));
          p = (if 0 < i then i - 1 else n + i)
      in if 0 \<le> p \<and> p < n
         then s\<lparr>stack := take (nat p) (stack s) @ drop (Suc (nat p)) (stack s)\<rparr>
         else s)"

definition lua_isfunction :: "world \<Rightarrow> int \<Rightarrow> bool" where
  "lua_isfunction s i = (case index2adr s i of Some (LFunction f) \<Rightarrow> True | _ \<Rightarrow> False)"

definition lua_rawgeti_registry :: "lua_ref \<Rightarrow> world \<Rightarrow> world" where
  "lua_rawgeti_registry r s =
     lua_push (case registry s r of Some v \<Rightarrow> v | None \<Rightarrow> LNil) s"

text \<open>
  \<^verbatim>\<open>luaL_ref\<close> pops the top value; nil gets the shared \<^verbatim>\<open>LUA_REFNIL\<close>, anything else a
  positive reference above every one handed out so far (\<open>ref_top\<close>). \<^verbatim>\<open>luaL_unref\<close>
  ignores negative references.
\<close>

definition luaL_ref :: "world \<Rightarrow> lua_ref \<times> world" where
  "luaL_ref s =
     (case index2adr s (-1) of
        Some LNil \<Rightarrow> (LUA_REFNIL, lua_pop 1 s)
      | None \<Rightarrow> (LUA_REFNIL, s)
      | Some v \<Rightarrow>
          (int (Suc (ref_top s)),
           (lua_pop 1 s)\<lparr>registry := (registry s)(int (Suc (ref_top s)) \<mapsto> v),
                          ref_top := Suc (ref_top s)\<rparr>))"

definition luaL_unref :: "lua_ref \<Rightarrow> world \<Rightarrow> world" where
  "luaL_unref r s = (if 0 \<le> r then s\<lparr>registry := (registry s)(r := None)\<rparr> else s)"

section \<open>The C heap\<close>

text \<open>
  \<^verbatim>\<open>malloc\<close> hands out the address above every one handed out so far (\<open>heap_top\<close>),
  never NULL, or NULL when the budget is used up; \<^verbatim>\<open>free\<close>
  of NULL does nothing, \<^verbatim>\<open>free\<close> of a block that is not live is a fault. The log of
  freed addresses counts how often each block was released.
\<close>

definition malloc :: "world \<Rightarrow> addr \<times> world" where
  "malloc s =
     (if malloc_budget s = 0 then (0, s)
      else (Suc (heap_top s),
            s\<lparr>live := insert (Suc (heap_top s)) (live s),
              heap_top := Suc (heap_top s),
              malloc_budget := malloc_budget s - 1\<rparr>))"

definition free :: "addr \<Rightarrow> world \<Rightarrow> res" where
  "free p s =
     (if p = 0 then Inr s
      else if p \<notin> live s then Inl (DoubleFree, s)
      else Inr (s\<lparr>live := live s - {p},
                  free_log := free_log s @ [p],
                  reqs := (reqs s)(p := None),
                  ctxs := (ctxs s)(p := None)\<rparr>))"

section \<open>Helpers of the repository that the stream file calls\<close>

text \<open>
  Modelled from the spec: \<^verbatim>\<open>luv_handle_ref\<close> and \<^verbatim>\<open>luv_handle_unref\<close> are not in
  the sources at hand. The spec (4.1): ref increments the keep-alive count, unref
  releases it, and unref below zero is a logic error.
\<close>

definition luv_handle_ref :: "handle_id \<Rightarrow> world \<Rightarrow> res" where
  "luv_handle_ref h s =
     (case handles s h of
        None \<Rightarrow> Inl (InvalidPointer, s)
      | Some lh \<Rightarrow> Inr (s\<lparr>handles := (handles s)(h \<mapsto> lh\<lparr>refCount := refCount lh + 1\<rparr>)\<rparr>))"

definition luv_handle_unref :: "handle_id \<Rightarrow> world \<Rightarrow> res" where
  "luv_handle_unref h s =
     (case handles s h of
        None \<Rightarrow> Inl (InvalidPointer, s)
      | Some lh \<Rightarrow>
          (if refCount lh - 1 < 0 then Inl (AssertionFailed, s)
           else Inr (s\<lparr>handles := (handles s)(h \<mapsto> lh\<lparr>refCount := refCount lh - 1\<rparr>)\<rparr>)))"

text \<open>
  Modelled from the spec: \<^verbatim>\<open>luv_checkudata\<close> is not in the sources at hand. The spec
  (4.3): a wrong argument type is a precondition checked synchronously, failing at once.
\<close>

definition luv_checkudata :: "world \<Rightarrow> int \<Rightarrow> string \<Rightarrow> (error \<times> world) + handle_id" where
  "luv_checkudata s i tname =
     (case index2adr s i of
        Some (LUserdata h) \<Rightarrow>
          (if h \<in> dom (handles s) then Inr h
           else Inl (LuaError (''bad argument: '' @ tname @ '' expected''), s))
      | _ \<Rightarrow> Inl (LuaError (''bad argument: '' @ tname @ '' expected''), s))"

text \<open>Sequencing: the first failure ends the function, as the long jump or the fault does.\<close>

definition then_do :: "(error \<times> world) + 'a \<Rightarrow> ('a \<Rightarrow> (error \<times> world) + 'b) \<Rightarrow> (error \<times> world) + 'b" where
  "then_do m f = (case m of Inl e \<Rightarrow> Inl e | Inr x \<Rightarrow> f x)"

text \<open>
  \<^verbatim>\<open>luv_handle_get_lua\<close>: the comments of the stream file say what it does for its
  callers, "load the lua state and the userdata": the userdata of the handle is pushed.
\<close>

definition luv_handle_get_lua :: "handle_id \<Rightarrow> world \<Rightarrow> res" where
  "luv_handle_get_lua h s =
     (case handles s h of
        None \<Rightarrow> Inl (InvalidPointer, s)
      | Some lh \<Rightarrow> Inr (lua_push (LUserdata h) s))"

text \<open>
  Modelled from the spec: \<^verbatim>\<open>luv_push_async_error\<close> is not in the sources at hand. The
  spec (6): an error-value constructor taking an operation name and a native status,
  producing the value passed as the sole argument of failure-path callbacks and events.
\<close>

definition luv_push_async_error :: "uv_err_code \<Rightarrow> string \<Rightarrow> world \<Rightarrow> world" where
  "luv_push_async_error err source s = lua_push (LError source err) s"

text \<open>
  Modelled from the spec: \<^verbatim>\<open>luv_acall\<close> is not in the sources at hand. The spec (6):
  a call-invocation primitive that invokes a script-level callable with N arguments
  already placed. The callable sits below its arguments; both leave the stack. What the
  callable does is script code, outside the bridge: the invocation is recorded.
\<close>

definition luv_acall :: "nat \<Rightarrow> string \<Rightarrow> world \<Rightarrow> world" where
  "luv_acall nargs source s =
     (let args = drop (length (stack s) - nargs) (stack s);
          f = (case index2adr s (- int nargs - 1) of Some v \<Rightarrow> v | None \<Rightarrow> LNil);
          s1 = lua_pop (nargs + 1) s
      in s1\<lparr>trace := trace s1 @ [(Invoke f args source, buffers s1)]\<rparr>)"

text \<open>
  Modelled from the spec: \<^verbatim>\<open>luv_emit_event\<close> and \<^verbatim>\<open>luv_register_event\<close> are not in
  the sources at hand. The spec (4.2): emit looks up the listeners registered for the
  event name on the handle and invokes each, in registration order, with the
  \<open>arg_count\<close> values already placed by the caller; it does not raise if no listener is
  registered. The callers in the stream file place the userdata of the handle below
  the arguments. The spec (4.3): listen registers the callback as the "connection"
  listener.
\<close>

definition luv_emit_event :: "string \<Rightarrow> nat \<Rightarrow> world \<Rightarrow> res" where
  "luv_emit_event name nargs s =
     (case index2adr s (- int nargs - 1) of
        Some (LUserdata h) \<Rightarrow>
          (case handles s h of
             None \<Rightarrow> Inl (InvalidPointer, s)
           | Some lh \<Rightarrow>
               (let args = drop (length (stack s) - nargs) (stack s);
                    s1 = lua_pop (nargs + 1) s
                in Inr (s1\<lparr>trace := trace s1 @
                          (Emit h name args, buffers s1) #
                          map (\<lambda>f. (Invoke f args name, buffers s1)) (listeners lh name)\<rparr>)))
      | _ \<Rightarrow> Inl (LuaError ''attempt to index a non-userdata value'', s))"

definition luv_register_event :: "int \<Rightarrow> string \<Rightarrow> int \<Rightarrow> world \<Rightarrow> res" where
  "luv_register_event userdata_index name callback_index s =
     (case index2adr s userdata_index of
        Some (LUserdata h) \<Rightarrow>
          (case handles s h of
             None \<Rightarrow> Inl (InvalidPointer, s)
           | Some lh \<Rightarrow>
               (let cb = (case index2adr s callback_index of Some v \<Rightarrow> v | None \<Rightarrow> LNil)
                in Inr (s\<lparr>handles := (handles s)
                          (h \<mapsto> lh\<lparr>listeners := (listeners lh)(name := listeners lh name @ [cb])\<rparr>)\<rparr>)))
      | _ \<Rightarrow> Inl (LuaError ''attempt to index a non-userdata value'', s))"

text \<open>
  Modelled from the spec: the functions of the Callback Context (\<^verbatim>\<open>luv_io_ctx_init\<close>,
  \<^verbatim>\<open>luv_io_ctx_add\<close>, \<^verbatim>\<open>luv_io_ctx_callback_add\<close>, \<^verbatim>\<open>luv_io_ctx_callback_rawgeti\<close>,
  \<^verbatim>\<open>luv_io_ctx_unref\<close>) are not in the sources at hand. The spec (3): a context holds
  at most one registered callback reference and at most one registered auxiliary data
  reference, both keyed into the reference table of the runtime; the callback reference
  is looked up and released at completion.
\<close>

definition luv_io_ctx_init :: "addr \<Rightarrow> world \<Rightarrow> res" where
  "luv_io_ctx_init cbs s =
     (if cbs = 0 then Inl (NullDeref, s)
      else if cbs \<notin> live s then Inl (InvalidPointer, s)
      else Inr (s\<lparr>ctxs := (ctxs s)(cbs \<mapsto> \<lparr>rcb = LUA_NOREF, rdata = LUA_NOREF\<rparr>)\<rparr>))"

definition luv_io_ctx_add :: "addr \<Rightarrow> int \<Rightarrow> world \<Rightarrow> res" where
  "luv_io_ctx_add cbs index' s =
     (case ctxs s cbs of
        None \<Rightarrow> Inl (InvalidPointer, s)
      | Some c \<Rightarrow>
          (let (r, s1) = luaL_ref (lua_pushvalue index' s)
           in Inr (s1\<lparr>ctxs := (ctxs s1)(cbs \<mapsto> c\<lparr>rdata := r\<rparr>)\<rparr>)))"

definition luv_io_ctx_callback_add :: "addr \<Rightarrow> int \<Rightarrow> world \<Rightarrow> res" where
  "luv_io_ctx_callback_add cbs index' s =
     (case ctxs s cbs of
        None \<Rightarrow> Inl (InvalidPointer, s)
      | Some c \<Rightarrow>
          (let (r, s1) = luaL_ref (lua_pushvalue index' s)
           in Inr (s1\<lparr>ctxs := (ctxs s1)(cbs \<mapsto> c\<lparr>rcb := r\<rparr>)\<rparr>)))"

definition luv_io_ctx_callback_rawgeti :: "addr \<Rightarrow> world \<Rightarrow> res" where
  "luv_io_ctx_callback_rawgeti cbs s =
     (case ctxs s cbs of
        None \<Rightarrow> Inl (InvalidPointer, s)
      | Some c \<Rightarrow> Inr (lua_rawgeti_registry (rcb c) s))"

definition luv_io_ctx_unref :: "addr \<Rightarrow> world \<Rightarrow> res" where
  "luv_io_ctx_unref cbs s =
     (case ctxs s cbs of
        None \<Rightarrow> Inl (InvalidPointer, s)
      | Some c \<Rightarrow> Inr (luaL_unref (rcb c) (luaL_unref (rdata c) s)))"

text \<open>
  Modelled from the spec: the buffer type (\<^verbatim>\<open>buffer_get\<close>, \<^verbatim>\<open>buffer_slice\<close>,
  \<^verbatim>\<open>buffer_new\<close>, \<^verbatim>\<open>buffer_wrap\<close>) is not in the sources at hand. The spec (6): a
  mutable byte sequence with \<open>slice(offset, length)\<close> giving a buffer, a boolean
  read-only flag, and raw pointer and length access. A slice is a new script object
  pushed on the stack; a new buffer is writable.
\<close>

definition buffer_get :: "world \<Rightarrow> int \<Rightarrow> (error \<times> world) + buf_id" where
  "buffer_get s i =
     (case index2adr s i of
        Some (LBuffer b) \<Rightarrow>
          (if b \<in> dom (buffers s) then Inr b
           else Inl (LuaError ''bad argument: buffer expected'', s))
      | _ \<Rightarrow> Inl (LuaError ''bad argument: buffer expected'', s))"

definition buffer_new :: "world \<Rightarrow> buf_id \<times> world" where
  "buffer_new s =
     (next_buf s,
      lua_push (LBuffer (next_buf s))
        (s\<lparr>buffers := (buffers s)(next_buf s \<mapsto> \<lparr>bdata = [], isConst = 0\<rparr>),
           next_buf := Suc (next_buf s)\<rparr>))"

definition buffer_wrap :: "buf_id \<Rightarrow> string \<Rightarrow> nat \<Rightarrow> world \<Rightarrow> world" where
  "buffer_wrap b bytes len s =
     (case buffers s b of
        None \<Rightarrow> s
      | Some bf \<Rightarrow> s\<lparr>buffers := (buffers s)(b \<mapsto> bf\<lparr>bdata := take len bytes\<rparr>)\<rparr>)"

definition buffer_slice :: "buf_id \<Rightarrow> nat \<Rightarrow> nat \<Rightarrow> world \<Rightarrow> res" where
  "buffer_slice b off len s =
     (case buffers s b of
        None \<Rightarrow> Inl (InvalidPointer, s)
      | Some bf \<Rightarrow>
          (let (nb, s1) = buffer_new s
           in Inr (buffer_wrap nb (drop off (bdata bf)) len s1)))"

text \<open>Writing the read-only flag through the buffer pointer of the handle.\<close>

definition set_isConst :: "buf_id \<Rightarrow> int \<Rightarrow> world \<Rightarrow> res" where
  "set_isConst b v s =
     (case buffers s b of
        None \<Rightarrow> Inl (InvalidPointer, s)
      | Some bf \<Rightarrow> Inr (s\<lparr>buffers := (buffers s)(b \<mapsto> bf\<lparr>isConst := v\<rparr>)\<rparr>))"

text \<open>Writing \<^verbatim>\<open>req->data\<close> of a freshly allocated request header.\<close>

definition set_req_data :: "addr \<Rightarrow> addr \<Rightarrow> world \<Rightarrow> res" where
  "set_req_data req cbs s =
     (if req = 0 then Inl (NullDeref, s)
      else if req \<notin> live s then Inl (InvalidPointer, s)
      else Inr (s\<lparr>reqs := (reqs s)
                  (req \<mapsto> (case reqs s req of
                               None \<Rightarrow> \<lparr>req_data = cbs, req_handle = 0\<rparr>
                             | Some r \<Rightarrow> r\<lparr>req_data := cbs\<rparr>))\<rparr>))"

section \<open>The native layer, as far as the bridge sees it\<close>

text \<open>
  Each native call leaves a mark. A request call also stores the handle in the request
  header, which is where the completion handlers read it back. The results of
  \<^verbatim>\<open>uv_read_start\<close>, \<^verbatim>\<open>uv_read_stop\<close>, \<^verbatim>\<open>uv_write\<close> and \<^verbatim>\<open>uv_shutdown\<close> are ignored by
  the source; those of \<^verbatim>\<open>uv_listen\<close> and \<^verbatim>\<open>uv_accept\<close> are inputs of the model.
\<close>

definition uv_read_start :: "handle_id \<Rightarrow> world \<Rightarrow> world" where
  "uv_read_start h s = s\<lparr>uv_log := uv_log s @ [UvReadStart h]\<rparr>"

definition uv_read_stop :: "handle_id \<Rightarrow> world \<Rightarrow> world" where
  "uv_read_stop h s = s\<lparr>uv_log := uv_log s @ [UvReadStop h]\<rparr>"

definition uv_listen :: "handle_id \<Rightarrow> int \<Rightarrow> world \<Rightarrow> world" where
  "uv_listen h backlog s = s\<lparr>uv_log := uv_log s @ [UvListen h backlog]\<rparr>"

definition uv_accept :: "handle_id \<Rightarrow> handle_id \<Rightarrow> world \<Rightarrow> world" where
  "uv_accept server client s = s\<lparr>uv_log := uv_log s @ [UvAccept server client]\<rparr>"

definition set_req_handle :: "addr \<Rightarrow> handle_id \<Rightarrow> world \<Rightarrow> world" where
  "set_req_handle req h s =
     (case reqs s req of
        None \<Rightarrow> s
      | Some r \<Rightarrow> s\<lparr>reqs := (reqs s)(req \<mapsto> r\<lparr>req_handle := h\<rparr>)\<rparr>)"

definition uv_write :: "addr \<Rightarrow> handle_id \<Rightarrow> buf_id \<Rightarrow> nat \<Rightarrow> world \<Rightarrow> world" where
  "uv_write req h base len s =
     (set_req_handle req h s)\<lparr>uv_log := uv_log s @ [UvWrite req h base len]\<rparr>"

definition uv_shutdown :: "addr \<Rightarrow> handle_id \<Rightarrow> world \<Rightarrow> world" where
  "uv_shutdown req h s =
     (set_req_handle req h s)\<lparr>uv_log := uv_log s @ [UvShutdown req h]\<rparr>"


section \<open>Completion handlers\<close>

definition luv_on_connection :: "handle_id \<Rightarrow> int \<Rightarrow> world \<Rightarrow> res" where
  "luv_on_connection handle status s =
     then_do (luv_handle_get_lua handle s) (\<lambda>s1.
       if status = -1
       then luv_emit_event ''error'' 1
              (luv_push_async_error (last_error s1) ''on_connection'' s1)
       else luv_emit_event ''connection'' 0 s1)"

definition reentry_message :: string where
  "reentry_message = ''Accidentally wrote incoming data into a readonly buffer. Did you resume a coroutine from inside a data event listener?''"

text \<open>
  \<open>buf_base\<close> is \<^verbatim>\<open>buf.base\<close>, the backing allocation of the native buffer. The
  comparison of \<open>nread\<close> with the length is made where \<open>nread\<close> is not negative.
\<close>

definition luv_on_read :: "handle_id \<Rightarrow> int \<Rightarrow> addr \<Rightarrow> world \<Rightarrow> res" where
  "luv_on_read handle nread buf_base s =
     then_do (luv_handle_get_lua handle s) (\<lambda>s0.
     then_do
       (if 0 \<le> nread then
          (case handles s0 handle of
             None \<Rightarrow> Inl (InvalidPointer, s0)
           | Some lhandle \<Rightarrow>
               (case buffers s0 (hbuffer lhandle) of
                  None \<Rightarrow> Inl (InvalidPointer, s0)
                | Some b \<Rightarrow>
                    if isConst b = 1 then Inl (LuaError reentry_message, s0)
                    else
                      then_do
                        (let s1 = lua_rawgeti_registry (href lhandle) s0
                         in if nread \<noteq> int (blength b)
                            then then_do (buffer_slice (hbuffer lhandle) 0 (nat nread) s1)
                                   (\<lambda>s2. Inr (lua_remove (-2) s2))
                            else Inr s1) (\<lambda>s3.
                      then_do (set_isConst (hbuffer lhandle) 1 (lua_pushinteger nread s3)) (\<lambda>s4.
                      then_do (luv_emit_event ''data'' 2 s4) (\<lambda>s5.
                      set_isConst (hbuffer lhandle) 0 s5)))))
        else
          (if last_error s0 = UV_EOF then luv_emit_event ''end'' 0 s0
           else luv_emit_event ''error'' 1
                  (luv_push_async_error (last_error s0) ''on_read'' s0)))
       (\<lambda>s6. free buf_base s6))"

definition luv_after_connect :: "addr \<Rightarrow> int \<Rightarrow> world \<Rightarrow> res" where
  "luv_after_connect req status s =
     (case reqs s req of
        None \<Rightarrow> Inl (InvalidPointer, s)
      | Some r \<Rightarrow>
          then_do (luv_handle_get_lua (req_handle r) s) (\<lambda>s1.
          then_do
            (if status = -1
             then luv_emit_event ''error'' 1
                    (luv_push_async_error (last_error s1) ''after_connect'' s1)
             else luv_emit_event ''connect'' 0 s1) (\<lambda>s2.
          free req s2)))"

text \<open>
  \<^verbatim>\<open>luv_after_shutdown\<close> and \<^verbatim>\<open>luv_after_write\<close> are the same text in the source but
  for the name given to the error value and to \<^verbatim>\<open>luv_acall\<close>; each is written out.
\<close>

definition luv_after_shutdown :: "addr \<Rightarrow> int \<Rightarrow> world \<Rightarrow> res" where
  "luv_after_shutdown req status s =
     (case reqs s req of
        None \<Rightarrow> Inl (InvalidPointer, s)
      | Some r \<Rightarrow>
          (let cbs = req_data r in
           then_do (luv_handle_get_lua (req_handle r) s) (\<lambda>s1.
           then_do (luv_io_ctx_callback_rawgeti cbs (lua_pop 1 s1)) (\<lambda>s2.
           then_do (luv_io_ctx_unref cbs s2) (\<lambda>s3.
           then_do
             (luv_handle_unref (req_handle r)
                (if lua_isfunction s3 (-1) then
                   (if status = -1
                    then luv_acall 1 ''after_shutdown''
                           (luv_push_async_error (last_error s3) ''after_shutdown'' s3)
                    else luv_acall 0 ''after_shutdown'' s3)
                 else lua_pop 1 s3)) (\<lambda>s4.
           then_do (free (req_data r) s4) (\<lambda>s5.
           free req s5)))))))"

definition luv_after_write :: "addr \<Rightarrow> int \<Rightarrow> world \<Rightarrow> res" where
  "luv_after_write req status s =
     (case reqs s req of
        None \<Rightarrow> Inl (InvalidPointer, s)
      | Some r \<Rightarrow>
          (let cbs = req_data r in
           then_do (luv_handle_get_lua (req_handle r) s) (\<lambda>s1.
           then_do (luv_io_ctx_callback_rawgeti cbs (lua_pop 1 s1)) (\<lambda>s2.
           then_do (luv_io_ctx_unref cbs s2) (\<lambda>s3.
           then_do
             (luv_handle_unref (req_handle r)
                (if lua_isfunction s3 (-1) then
                   (if status = -1
                    then luv_acall 1 ''after_write''
                           (luv_push_async_error (last_error s3) ''after_write'' s3)
                    else luv_acall 0 ''after_write'' s3)
                 else lua_pop 1 s3)) (\<lambda>s4.
           then_do (free (req_data r) s4) (\<lambda>s5.
           free req s5)))))))"

section \<open>Stream operations\<close>

text \<open>Argument checks of the auxiliary library of the runtime.\<close>

definition luaL_checktype_function :: "world \<Rightarrow> int \<Rightarrow> (error \<times> world) + unit" where
  "luaL_checktype_function s i =
     (case index2adr s i of
        Some (LFunction f) \<Rightarrow> Inr ()
      | _ \<Rightarrow> Inl (LuaError ''bad argument: function expected'', s))"

text \<open>The conversion to a C \<^verbatim>\<open>int\<close>: 32 bits, two's complement.\<close>

definition c_int :: "int \<Rightarrow> int" where
  "c_int n = (n + 2 ^ 31) mod 2 ^ 32 - 2 ^ 31"

text \<open>
  \<^verbatim>\<open>luaL_optint\<close> is \<^verbatim>\<open>luaL_optinteger\<close> cast to \<^verbatim>\<open>int\<close>. Numbers only: a string that
  reads as a number is not modelled and counts as a wrong type.
\<close>

definition luaL_optint :: "world \<Rightarrow> int \<Rightarrow> int \<Rightarrow> (error \<times> world) + int" where
  "luaL_optint s i d =
     (case index2adr s i of
        None \<Rightarrow> Inr (c_int d)
      | Some LNil \<Rightarrow> Inr (c_int d)
      | Some (LInteger n) \<Rightarrow> Inr (c_int n)
      | Some v \<Rightarrow> Inl (LuaError ''bad argument: number expected'', s))"


text \<open>\<open>uv_listen_rc\<close> is what the native \<^verbatim>\<open>uv_listen\<close> returns.\<close>

definition luv_listen :: "int \<Rightarrow> world \<Rightarrow> cres" where
  "luv_listen uv_listen_rc s =
     then_do (luv_checkudata s 1 ''stream'') (\<lambda>handle.
     then_do (luaL_checktype_function s 2) (\<lambda>_.
     then_do (luaL_optint s 3 128) (\<lambda>backlog_size.
     then_do (luv_register_event 1 ''connection'' 2 s) (\<lambda>s1.
       let s2 = uv_listen handle backlog_size s1
       in if uv_listen_rc \<noteq> 0
          then Inl (LuaErrorUv ''listen: %s'' (last_error s2), s2)
          else then_do (luv_emit_event ''listening'' 0 (lua_pushvalue 1 s2)) (\<lambda>s3.
               then_do (luv_handle_ref handle s3) (\<lambda>s4.
               Inr (0, s4)))))))"


definition luv_read_start :: "world \<Rightarrow> cres" where
  "luv_read_start s =
     then_do (luv_checkudata s 1 ''stream'') (\<lambda>handle.
     then_do (luv_handle_ref handle (uv_read_start handle s)) (\<lambda>s1.
     Inr (0, s1)))"

definition luv_read_stop :: "world \<Rightarrow> cres" where
  "luv_read_stop s =
     then_do (luv_checkudata s 1 ''stream'') (\<lambda>handle.
     then_do (luv_handle_unref handle (uv_read_stop handle s)) (\<lambda>s1.
     Inr (0, s1)))"


text \<open>
  \<^verbatim>\<open>buf = uv_buf_init(BUFFER_DATA(chunk), chunk->length)\<close>: the native write is handed
  the storage of the chunk itself, and its length.
\<close>

definition luv_write :: "world \<Rightarrow> cres" where
  "luv_write s =
     then_do (luv_checkudata s 1 ''stream'') (\<lambda>handle.
     then_do (buffer_get s 2) (\<lambda>chunk.
       let (req, s1) = malloc s;
           (cbs, s2) = malloc s1
       in then_do (luv_io_ctx_init cbs s2) (\<lambda>s3.
          then_do (luv_io_ctx_add cbs 2 s3) (\<lambda>s4.
          then_do (luv_io_ctx_callback_add cbs 3 s4) (\<lambda>s5.
          then_do (set_req_data req cbs s5) (\<lambda>s6.
          then_do (luv_handle_ref handle s6) (\<lambda>s7.
            (case buffers s7 chunk of
               None \<Rightarrow> Inl (InvalidPointer, s7)
             | Some b \<Rightarrow> Inr (0, uv_write req handle chunk (blength b) s7)))))))))"

section \<open>The environment getter\<close>

text \<open>
  A C string ends at its first NUL: what a C function sees of a string of the runtime,
  which may hold NUL characters, is the part before the first of them.
\<close>

definition c_str :: "string \<Rightarrow> string" where
  "c_str str = takeWhile (\<lambda>c. c \<noteq> CHR 0x00) str"

text \<open>
  \<^verbatim>\<open>getenv\<close> of the C library (as in the GNU C library) over the \<^verbatim>\<open>environ\<close> array of
  \<^verbatim>\<open>NAME=value\<close> strings: NULL (\<open>None\<close>) for the empty name; otherwise the value of the
  first entry that starts with the name followed by \<open>=\<close>, or NULL when there is none.
\<close>

fun getenv :: "string list \<Rightarrow> string \<Rightarrow> string option" where
  "getenv [] name = None"
| "getenv (e # es) name =
     (if c_str name \<noteq> [] \<and>
         take (Suc (length (c_str name))) (c_str e) = c_str name @ ''=''
      then Some (drop (Suc (length (c_str name))) (c_str e))
      else getenv es name)"

text \<open>
  The number format of the runtime, \<^verbatim>\<open>%.14g\<close>, on a whole number: plain digits up to 14
  of them; from 15 digits on, the number rounded to 14 significant digits (a tie goes
  to the even digit) in the form \<^verbatim>\<open>d.ddde+XX\<close>, without trailing zeros in the fraction
  and with at least two digits in the exponent.
\<close>

fun dec_digits :: "nat \<Rightarrow> string" where
  "dec_digits n =
     (if n < 10 then [''0123456789'' ! n]
      else dec_digits (n div 10) @ [''0123456789'' ! (n mod 10)])"

definition round_half_even :: "nat \<Rightarrow> nat \<Rightarrow> nat" where
  "round_half_even a p =
     (let q = a div p; r = a mod p
      in if 2 * r < p then q
         else if p < 2 * r then Suc q
         else if even q then q else Suc q)"

definition strip_zeros :: "string \<Rightarrow> string" where
  "strip_zeros ds = rev (dropWhile (\<lambda>c. c = CHR ''0'') (rev ds))"

definition format_g14 :: "nat \<Rightarrow> string" where
  "format_g14 a =
     (let d = length (dec_digits a)
      in if d \<le> 14 then dec_digits a
         else
           (let m = round_half_even a (10 ^ (d - 14));
                carry = (m = 10 ^ 14);
                ds = dec_digits (if carry then 10 ^ 13 else m);
                x = (if carry then d else d - 1);
                frac = strip_zeros (tl ds)
            in [hd ds] @ (if frac = [] then [] else ''.'' @ frac) @ ''e+'' @
               (if x < 10 then ''0'' else []) @ dec_digits x))"

definition lua_number2str :: "int \<Rightarrow> string" where
  "lua_number2str n = (if n < 0 then ''-'' @ format_g14 (nat (- n)) else format_g14 (nat n))"

text \<open>The value at an acceptable index is replaced.\<close>

definition set_index :: "int \<Rightarrow> lua_value \<Rightarrow> world \<Rightarrow> world" where
  "set_index i v s =
     (let n = int (length (stack s));
          p = (if 0 < i then i - 1 else n + i)
      in if 0 \<le> p \<and> p < n then s\<lparr>stack := (stack s)[nat p := v]\<rparr> else s)"

text \<open>
  \<^verbatim>\<open>luaL_checkstring\<close> takes a string or a number. A number is converted to a string in
  its stack slot. The caller gets a \<^verbatim>\<open>char*\<close>: the C string of the string of the runtime.
\<close>

definition luaL_checkstring :: "world \<Rightarrow> int \<Rightarrow> (error \<times> world) + (string \<times> world)" where
  "luaL_checkstring s i =
     (case index2adr s i of
        Some (LString str) \<Rightarrow> Inr (c_str str, s)
      | Some (LInteger n) \<Rightarrow>
          Inr (c_str (lua_number2str n), set_index i (LString (lua_number2str n)) s)
      | _ \<Rightarrow> Inl (LuaError ''bad argument: string expected'', s))"

text \<open>
  The branch of \<^verbatim>\<open>lenv_get\<close> compiled when \<^verbatim>\<open>_WIN32\<close> is not defined. \<^verbatim>\<open>strlen\<close>
  reads through its argument: on NULL that is a fault, whatever the order in which the
  arguments of \<^verbatim>\<open>buffer_wrap\<close> are evaluated.
\<close>

definition lenv_get :: "world \<Rightarrow> cres" where
  "lenv_get s =
     then_do (luaL_checkstring s 1) (\<lambda>(name, s0).
       (case getenv (environ s0) name of
          None \<Rightarrow> Inl (NullDeref, s0)
        | Some val \<Rightarrow>
            (let (b, s1) = buffer_new s0
             in Inr (1, buffer_wrap b val (length val) s1))))"

section \<open>Observations used to state the properties\<close>

text \<open>The keep-alive count of a handle, as a number (0 for a handle that does not exist).\<close>

definition keep_alive :: "world \<Rightarrow> handle_id \<Rightarrow> int" where
  "keep_alive s h = (case handles s h of Some lh \<Rightarrow> refCount lh | None \<Rightarrow> 0)"

definition listeners_of :: "world \<Rightarrow> handle_id \<Rightarrow> string \<Rightarrow> lua_value list" where
  "listeners_of s h name = (case handles s h of Some lh \<Rightarrow> listeners lh name | None \<Rightarrow> [])"

text \<open>The read-only flag of a buffer in a store of buffers.\<close>

definition flag_in :: "(buf_id \<rightharpoonup> buffer) \<Rightarrow> buf_id \<Rightarrow> int option" where
  "flag_in bs b = map_option isConst (bs b)"

definition bytes_in :: "(buf_id \<rightharpoonup> buffer) \<Rightarrow> buf_id \<Rightarrow> string option" where
  "bytes_in bs b = map_option bdata (bs b)"

text \<open>
  What one emission adds to the trace: the event itself, then one invocation for each
  listener, all observing the same buffers.
\<close>

definition dispatch ::
  "(buf_id \<rightharpoonup> buffer) \<Rightarrow> handle_id \<Rightarrow> lua_value list \<Rightarrow> string \<Rightarrow> lua_value list
     \<Rightarrow> (effect \<times> (buf_id \<rightharpoonup> buffer)) list" where
  "dispatch snap h ls name args =
     (Emit h name args, snap) # map (\<lambda>f. (Invoke f args name, snap)) ls"

text \<open>
  What the completion of a request adds to the trace when the value found under the
  callback reference is \<open>cb\<close>: one invocation if it is a function, with the error value
  as the only argument when the status is -1 and with no argument otherwise.
\<close>

definition callback_invocation ::
  "string \<Rightarrow> int \<Rightarrow> world \<Rightarrow> lua_value \<Rightarrow> (effect \<times> (buf_id \<rightharpoonup> buffer)) list" where
  "callback_invocation opname status s cb =
     (case cb of
        LFunction f \<Rightarrow>
          [(Invoke (LFunction f)
              (if status = -1 then [LError opname (last_error s)] else []) opname, buffers s)]
      | _ \<Rightarrow> [])"

text \<open>The registry after both references of a context are released.\<close>

definition release_refs :: "luv_io_ctx \<Rightarrow> (lua_ref \<rightharpoonup> lua_value) \<Rightarrow> (lua_ref \<rightharpoonup> lua_value)" where
  "release_refs c reg =
     (let reg1 = (if 0 \<le> rdata c then reg(rdata c := None) else reg)
      in if 0 \<le> rcb c then reg1(rcb c := None) else reg1)"

text \<open>
  The text that \<^verbatim>\<open>luv_after_shutdown\<close> and \<^verbatim>\<open>luv_after_write\<close> have in common, with the
  name as a parameter; used to prove facts about both at once.
\<close>

definition after_request :: "string \<Rightarrow> addr \<Rightarrow> int \<Rightarrow> world \<Rightarrow> res" where
  "after_request opname req status s =
     (case reqs s req of
        None \<Rightarrow> Inl (InvalidPointer, s)
      | Some r \<Rightarrow>
          (let cbs = req_data r in
           then_do (luv_handle_get_lua (req_handle r) s) (\<lambda>s1.
           then_do (luv_io_ctx_callback_rawgeti cbs (lua_pop 1 s1)) (\<lambda>s2.
           then_do (luv_io_ctx_unref cbs s2) (\<lambda>s3.
           then_do
             (luv_handle_unref (req_handle r)
                (if lua_isfunction s3 (-1) then
                   (if status = -1
                    then luv_acall 1 opname
                           (luv_push_async_error (last_error s3) opname s3)
                    else luv_acall 0 opname s3)
                 else lua_pop 1 s3)) (\<lambda>s4.
           then_do (free (req_data r) s4) (\<lambda>s5.
           free req s5)))))))"

text \<open>
  A request in flight, as \<^verbatim>\<open>luv_write\<close> and \<^verbatim>\<open>luv_shutdown\<close> leave it: the header and
  its context are two distinct live blocks, and the handle exists and is pinned.
\<close>

definition pending :: "world \<Rightarrow> addr \<Rightarrow> bool" where
  "pending s req =
     (case reqs s req of
        None \<Rightarrow> False
      | Some r \<Rightarrow>
          (case ctxs s (req_data r) of
             None \<Rightarrow> False
           | Some c \<Rightarrow>
               (case handles s (req_handle r) of
                  None \<Rightarrow> False
                | Some lh \<Rightarrow>
                    1 \<le> refCount lh \<and> req \<in> live s \<and> req_data r \<in> live s \<and>
                    req \<noteq> 0 \<and> req_data r \<noteq> 0 \<and> req \<noteq> req_data r)))"

text \<open>A connect request in flight: a live header on an existing handle.\<close>

definition connect_pending :: "world \<Rightarrow> addr \<Rightarrow> bool" where
  "connect_pending s req =
     (case reqs s req of
        None \<Rightarrow> False
      | Some r \<Rightarrow>
          (case handles s (req_handle r) of
             None \<Rightarrow> False
           | Some lh \<Rightarrow> req \<in> live s \<and> req \<noteq> 0))"

definition request_handle :: "world \<Rightarrow> addr \<Rightarrow> handle_id" where
  "request_handle s req = (case reqs s req of Some r \<Rightarrow> req_handle r | None \<Rightarrow> 0)"

definition request_context :: "world \<Rightarrow> addr \<Rightarrow> addr" where
  "request_context s req = (case reqs s req of Some r \<Rightarrow> req_data r | None \<Rightarrow> 0)"

text \<open>The value the registry holds under the callback reference of the context of a request.\<close>

definition registered_callback :: "world \<Rightarrow> addr \<Rightarrow> lua_value" where
  "registered_callback s req =
     (case ctxs s (request_context s req) of
        None \<Rightarrow> LNil
      | Some c \<Rightarrow> (case registry s (rcb c) of Some v \<Rightarrow> v | None \<Rightarrow> LNil))"

text \<open>A block released exactly once between two worlds: one more entry in the log, and not live.\<close>

definition freed_once :: "world \<Rightarrow> world \<Rightarrow> addr \<Rightarrow> bool" where
  "freed_once s s' p =
     (count_list (free_log s') p = Suc (count_list (free_log s) p) \<and> p \<notin> live s')"

text \<open>
  The completion discipline in the words of the spec (4.4), for a handler that turned
  the world \<open>s\<close> into the result \<open>result\<close>: the context is the one the request points
  to; its callback reference is released; the callback, if there is one, was invoked
  with an error value on failure or no arguments on success and nothing else reached
  script code; the keep-alive reference of the handle is released; the context and the
  request are freed.
\<close>

definition completion_discipline :: "string \<Rightarrow> addr \<Rightarrow> int \<Rightarrow> world \<Rightarrow> res \<Rightarrow> bool" where
  "completion_discipline opname req status s result =
     (case result of
        Inl e \<Rightarrow> False
      | Inr s' \<Rightarrow>
          (case ctxs s (request_context s req) of
             None \<Rightarrow> False
           | Some c \<Rightarrow>
               (if 0 \<le> rcb c then registry s' (rcb c) = None else True) \<and>
               trace s' = trace s @ callback_invocation opname status s (registered_callback s req) \<and>
               keep_alive s' (request_handle s req) = keep_alive s (request_handle s req) - 1 \<and>
               freed_once s s' (request_context s req) \<and>
               freed_once s s' req))"



section \<open>Worlds used as examples\<close>

text \<open>
  One stream handle (1) with an empty keep-alive count, whose read buffer (1) holds
  five bytes and is registered under reference 1; the script frame of a call
  \<open>write(handle, buffer, callback)\<close>; room for two allocations.
\<close>

definition example_handle :: luv_handle where
  "example_handle = \<lparr>refCount = 0, href = 1, hbuffer = 1, listeners = (\<lambda>name. [])\<rparr>"

definition example_world :: world where
  "example_world =
     \<lparr>stack = [LUserdata 1, LBuffer 1, LFunction 7],
      registry = [1 \<mapsto> LBuffer 1], ref_top = 1,
      handles = [1 \<mapsto> example_handle],
      buffers = [1 \<mapsto> \<lparr>bdata = ''hello'', isConst = 0\<rparr>], next_buf = 2,
      live = {}, heap_top = 0, malloc_budget = 2, free_log = [],
      reqs = Map.empty, ctxs = Map.empty, last_error = UV_OK,
      uv_log = [], trace = [], environ = [''HOME=/root'']\<rparr>"


text \<open>
  The same handle pinned once, with one request in flight: header 1, context 2, the
  callback registered under reference 3 and the buffer under reference 2.
\<close>

definition example_pending :: world where
  "example_pending =
     \<lparr>stack = [],
      registry = [1 \<mapsto> LBuffer 1, 2 \<mapsto> LBuffer 1, 3 \<mapsto> LFunction 7], ref_top = 3,
      handles = [1 \<mapsto> example_handle\<lparr>refCount := 1\<rparr>],
      buffers = [1 \<mapsto> \<lparr>bdata = ''hello'', isConst = 0\<rparr>], next_buf = 2,
      live = {1, 2}, heap_top = 2, malloc_budget = 0, free_log = [],
      reqs = [1 \<mapsto> \<lparr>req_data = 2, req_handle = 1\<rparr>],
      ctxs = [2 \<mapsto> \<lparr>rcb = 3, rdata = 2\<rparr>], last_error = UV_OK,
      uv_log = [UvWrite 1 1 1 5], trace = [], environ = []\<rparr>"

text \<open>A read in progress: the native buffer allocation is block 3.\<close>

definition example_reading :: world where
  "example_reading = example_world\<lparr>stack := [], live := {3}, heap_top := 3\<rparr>"

text \<open>The same read arriving while the buffer of the handle is still marked read-only.\<close>

definition example_guard :: world where
  "example_guard =
     example_reading\<lparr>buffers := [1 \<mapsto> \<lparr>bdata = ''hello'', isConst = 1\<rparr>]\<rparr>"

text \<open>The frame of a call \<open>listen(handle, callback)\<close>.\<close>

definition example_listen :: world where
  "example_listen = example_world\<lparr>stack := [LUserdata 1, LFunction 9], last_error := UV_ERRNO 5\<rparr>"

text \<open>The world that a failed native listen leaves behind in that frame.\<close>

definition example_listen_failed :: world where
  "example_listen_failed =
     example_listen
       \<lparr>handles :=
          [1 \<mapsto> example_handle\<lparr>listeners := (\<lambda>name. [])(''connection'' := [LFunction 9])\<rparr>],
        uv_log := [UvListen 1 128]\<rparr>"

text \<open>The frame of a call \<open>get(name)\<close> of the environment module.\<close>

definition example_env :: world where
  "example_env = example_world\<lparr>stack := [LString ''SHELL'']\<rparr>"

section \<open>A write in flight\<close>

text \<open>The world a handler leaves behind, whether it returns or raises.\<close>

definition world_after :: "res \<Rightarrow> world" where
  "world_after m = (case m of Inl (e, t) \<Rightarrow> t | Inr t \<Rightarrow> t)"

text \<open>The same for a function called from a script.\<close>

definition world_after_call :: "cres \<Rightarrow> world" where
  "world_after_call m = (case m of Inl (e, t) \<Rightarrow> t | Inr (n, t) \<Rightarrow> t)"

text \<open>
  \<open>outcome E Q m\<close>: the world in which \<open>m\<close> raises satisfies \<open>E\<close>, and what it returns
  satisfies \<open>Q\<close>.
\<close>

definition outcome :: "(world \<Rightarrow> bool) \<Rightarrow> ('a \<Rightarrow> bool) \<Rightarrow> (error \<times> world) + 'a \<Rightarrow> bool" where
  "outcome E Q m = (case m of Inl (e, t) \<Rightarrow> E t | Inr x \<Rightarrow> Q x)"

text \<open>
  A write in flight: its request header, its callback context, the reference that
  \<^verbatim>\<open>luv_io_ctx_add\<close> took on the buffer, the buffer and the length handed to the native
  layer.
\<close>

record in_flight =
  w_req :: addr
  w_cbs :: addr
  w_ref :: lua_ref
  w_chunk :: buf_id
  w_len :: nat

text \<open>
  The write is held: the header points at the context, the context holds the reference,
  the registry maps the reference to the buffer, the buffer is there with its length,
  and neither block has been freed.
\<close>

definition write_held :: "in_flight \<Rightarrow> world \<Rightarrow> bool" where
  "write_held w s =
     (request_context s (w_req w) = w_cbs w \<and>
      (case ctxs s (w_cbs w) of None \<Rightarrow> False | Some c \<Rightarrow> rdata c = w_ref w \<and> rcb c \<noteq> w_ref w) \<and>
      registry s (w_ref w) = Some (LBuffer (w_chunk w)) \<and>
      map_option length (bytes_in (buffers s) (w_chunk w)) = Some (w_len w) \<and>
      w_req w \<in> live s \<and> w_cbs w \<in> live s)"

text \<open>
  The write is apart from everything else: its blocks and its reference have been handed
  out (so no later allocation returns them), and no other request or context points at
  them.
\<close>

definition write_apart :: "in_flight \<Rightarrow> world \<Rightarrow> bool" where
  "write_apart w s =
     (w_req w \<le> heap_top s \<and> w_cbs w \<le> heap_top s \<and> w_req w \<noteq> w_cbs w \<and>
      w_req w \<noteq> 0 \<and> w_cbs w \<noteq> 0 \<and>
      0 < w_ref w \<and> w_ref w \<le> int (ref_top s) \<and> w_chunk w < next_buf s \<and>
      reqs s (w_cbs w) = None \<and>
      (\<forall>a q. reqs s a = Some q \<and> a \<noteq> w_req w \<longrightarrow>
             req_data q \<noteq> w_cbs w \<and> req_data q \<noteq> w_req w) \<and>
      (\<forall>a c. ctxs s a = Some c \<and> a \<noteq> w_cbs w \<longrightarrow> rdata c \<noteq> w_ref w \<and> rcb c \<noteq> w_ref w))"

definition write_inv :: "in_flight \<Rightarrow> world \<Rightarrow> bool" where
  "write_inv w s = (write_held w s \<and> write_apart w s)"




text \<open>Worlds that agree on everything the invariant reads.\<close>

definition same_core :: "world \<Rightarrow> world \<Rightarrow> bool" where
  "same_core s t =
     ((\<forall>a. map_option req_data (reqs t a) = map_option req_data (reqs s a)) \<and>
      ctxs t = ctxs s \<and> registry t = registry s \<and>
      (\<forall>b. bytes_in (buffers t) b = bytes_in (buffers s) b) \<and>
      live t = live s \<and> heap_top t = heap_top s \<and> ref_top t = ref_top s \<and>
      next_buf t = next_buf s)"

section \<open>Basic facts about the primitives\<close>

lemma then_do_Inr [simp]: "then_do (Inr x) f = f x"
  by (simp add: then_do_def)

lemma then_do_Inl [simp]: "then_do (Inl e) f = Inl e"
  by (simp add: then_do_def)

lemma lua_push_fields [simp]:
  "registry (lua_push v s) = registry s" "handles (lua_push v s) = handles s"
  "buffers (lua_push v s) = buffers s" "live (lua_push v s) = live s"
  "reqs (lua_push v s) = reqs s" "ctxs (lua_push v s) = ctxs s"
  "last_error (lua_push v s) = last_error s" "trace (lua_push v s) = trace s"
  "free_log (lua_push v s) = free_log s" "next_buf (lua_push v s) = next_buf s"
  "stack (lua_push v s) = stack s @ [v]"
  by (simp_all add: lua_push_def)

lemma lua_pop_push [simp]: "lua_pop (Suc 0) (lua_push v s) = s"
  by (simp add: lua_pop_def lua_push_def)

lemma index2adr_push [simp]: "index2adr (lua_push v s) (-1) = Some v"
  by (simp add: index2adr_def lua_push_def)

lemma index2adr_same_stack: "stack t = stack s \<Longrightarrow> index2adr t i = index2adr s i"
  by (simp add: index2adr_def Let_def)

lemma lua_pushvalue_run:
  "index2adr s i = Some v \<Longrightarrow> stack t = stack s \<Longrightarrow> lua_pushvalue i t = lua_push v t"
  using index2adr_same_stack [of t s i] by (simp add: lua_pushvalue_def)

lemma lua_isfunction_push:
  "lua_isfunction (lua_push v s) (-1) = (case v of LFunction f \<Rightarrow> True | _ \<Rightarrow> False)"
  by (simp add: lua_isfunction_def)

lemma lua_remove_2: "lua_remove (-2) (lua_push w (lua_push v s)) = lua_push w s"
  by (simp add: lua_remove_def lua_push_def Let_def)

lemma lua_push_buffers_update: "(lua_push v s)\<lparr>buffers := bs\<rparr> = lua_push v (s\<lparr>buffers := bs\<rparr>)"
  by (simp add: lua_push_def)

lemma uv_req_update_all: "x\<lparr>req_data := a, req_handle := b\<rparr> = \<lparr>req_data = a, req_handle = b\<rparr>"
  by (cases x) simp

lemma luv_acall_0:
  "luv_acall 0 src (lua_push f s) = s\<lparr>trace := trace s @ [(Invoke f [] src, buffers s)]\<rparr>"
  by (simp add: luv_acall_def lua_push_def lua_pop_def Let_def index2adr_def nth_append)

lemma luv_acall_1:
  "luv_acall (Suc 0) src (lua_push e (lua_push f s)) =
     s\<lparr>trace := trace s @ [(Invoke f [e] src, buffers s)]\<rparr>"
  by (simp add: luv_acall_def lua_push_def lua_pop_def Let_def index2adr_def nth_append)

lemma luv_emit_event_0:
  "handles s h = Some lh \<Longrightarrow>
   luv_emit_event name 0 (lua_push (LUserdata h) s) =
     Inr (s\<lparr>trace := trace s @ dispatch (buffers s) h (listeners lh name) name []\<rparr>)"
  by (simp add: luv_emit_event_def lua_push_def lua_pop_def Let_def index2adr_def nth_append
      dispatch_def)

lemma luv_emit_event_1:
  "handles s h = Some lh \<Longrightarrow>
   luv_emit_event name (Suc 0) (lua_push e (lua_push (LUserdata h) s)) =
     Inr (s\<lparr>trace := trace s @ dispatch (buffers s) h (listeners lh name) name [e]\<rparr>)"
  by (simp add: luv_emit_event_def lua_push_def lua_pop_def Let_def index2adr_def nth_append
      dispatch_def)

lemma luv_emit_event_2:
  "handles s h = Some lh \<Longrightarrow>
   luv_emit_event name 2 (lua_push e (lua_push d (lua_push (LUserdata h) s))) =
     Inr (s\<lparr>trace := trace s @ dispatch (buffers s) h (listeners lh name) name [d, e]\<rparr>)"
  by (simp add: luv_emit_event_def lua_push_def lua_pop_def Let_def index2adr_def nth_append
      dispatch_def)

lemma luv_handle_get_lua_run:
  "handles s h = Some lh \<Longrightarrow> luv_handle_get_lua h s = Inr (lua_push (LUserdata h) s)"
  by (simp add: luv_handle_get_lua_def)

lemma free_run:
  "p \<in> live s \<Longrightarrow> p \<noteq> 0 \<Longrightarrow>
   free p s = Inr (s\<lparr>live := live s - {p}, free_log := free_log s @ [p],
                     reqs := (reqs s)(p := None), ctxs := (ctxs s)(p := None)\<rparr>)"
  by (simp add: free_def)

lemma luv_io_ctx_unref_run:
  "ctxs s cbs = Some c \<Longrightarrow>
   luv_io_ctx_unref cbs (lua_push v s) =
     Inr (lua_push v (s\<lparr>registry := release_refs c (registry s)\<rparr>))"
  by (simp add: luv_io_ctx_unref_def luaL_unref_def lua_push_def release_refs_def)

lemma luv_io_ctx_callback_rawgeti_run:
  "ctxs s cbs = Some c \<Longrightarrow>
   luv_io_ctx_callback_rawgeti cbs s =
     Inr (lua_push (case registry s (rcb c) of Some v \<Rightarrow> v | None \<Rightarrow> LNil) s)"
  by (simp add: luv_io_ctx_callback_rawgeti_def lua_rawgeti_registry_def)

lemma luv_handle_unref_run:
  "handles s h = Some lh \<Longrightarrow> 1 \<le> refCount lh \<Longrightarrow>
   luv_handle_unref h s =
     Inr (s\<lparr>handles := (handles s)(h \<mapsto> lh\<lparr>refCount := refCount lh - 1\<rparr>)\<rparr>)"
  by (simp add: luv_handle_unref_def)

lemma set_isConst_run:
  "buffers s b = Some bf \<Longrightarrow>
   set_isConst b v s = Inr (s\<lparr>buffers := (buffers s)(b \<mapsto> bf\<lparr>isConst := v\<rparr>)\<rparr>)"
  by (simp add: set_isConst_def)

lemma buffer_slice_run:
  assumes "buffers s b = Some bf"
  shows "buffer_slice b off len (lua_push v (lua_push u s)) =
     Inr (lua_push (LBuffer (next_buf s)) (lua_push v (lua_push u
       (s\<lparr>buffers := (buffers s)
             (next_buf s \<mapsto> \<lparr>bdata = take len (drop off (bdata bf)), isConst = 0\<rparr>),
          next_buf := Suc (next_buf s)\<rparr>))))"
  using assms
  by (simp add: buffer_slice_def buffer_new_def buffer_wrap_def lua_push_def)

lemma luv_checkudata_run:
  "index2adr s i = Some (LUserdata h) \<Longrightarrow> handles s h = Some lh \<Longrightarrow>
   luv_checkudata s i tname = Inr h"
  by (auto simp: luv_checkudata_def)

lemma luv_checkudata_Inr:
  "luv_checkudata s i tname = Inr h \<Longrightarrow>
   index2adr s i = Some (LUserdata h) \<and> h \<in> dom (handles s)"
  by (auto simp: luv_checkudata_def split: option.splits lua_value.splits if_splits)

lemma buffer_get_run:
  "index2adr s i = Some (LBuffer b) \<Longrightarrow> buffers s b = Some bf \<Longrightarrow> buffer_get s i = Inr b"
  by (auto simp: buffer_get_def)

lemma luv_after_write_eq: "luv_after_write = after_request ''after_write''"
  by (intro ext) (simp add: luv_after_write_def after_request_def)

lemma luv_after_shutdown_eq: "luv_after_shutdown = after_request ''after_shutdown''"
  by (intro ext) (simp add: luv_after_shutdown_def after_request_def)

section \<open>What each function does on a well-formed world\<close>

lemma luv_read_start_run:
  assumes "index2adr s 1 = Some (LUserdata h)" and "handles s h = Some lh"
  shows "luv_read_start s =
     Inr (0, s\<lparr>handles := (handles s)(h \<mapsto> lh\<lparr>refCount := refCount lh + 1\<rparr>),
               uv_log := uv_log s @ [UvReadStart h]\<rparr>)"
  using assms
  by (simp add: luv_read_start_def luv_checkudata_run luv_handle_ref_def uv_read_start_def)

lemma luv_read_stop_run:
  assumes "index2adr s 1 = Some (LUserdata h)" and "handles s h = Some lh"
    and "1 \<le> refCount lh"
  shows "luv_read_stop s =
     Inr (0, s\<lparr>handles := (handles s)(h \<mapsto> lh\<lparr>refCount := refCount lh - 1\<rparr>),
               uv_log := uv_log s @ [UvReadStop h]\<rparr>)"
  using assms
  by (simp add: luv_read_stop_def luv_checkudata_run luv_handle_unref_def uv_read_stop_def)

section \<open>The read pair and the keep-alive count\<close>

text \<open>
  C8. For every \<open>read_start(handle)\<close> followed by a matching \<open>read_stop(handle)\<close>, the
  keep-alive count of the handle after the pair equals its value before the pair:
  \<open>read_start\<close> increments it by one, \<open>read_stop\<close> decrements it by one. The stop may
  come at once, or in any later world \<open>t\<close> whose frame names the same handle and in
  which the handle is as the start left it.
\<close>

theorem read_start_read_stop_net_zero:
  assumes "index2adr s 1 = Some (LUserdata h)" and "handles s h = Some lh"
    and "0 \<le> refCount lh"
  shows "\<exists>s1. luv_read_start s = Inr (0, s1) \<and>
              keep_alive s1 h = keep_alive s h + 1 \<and>
              (\<exists>s2. luv_read_stop s1 = Inr (0, s2) \<and>
                    keep_alive s2 h = keep_alive s1 h - 1 \<and>
                    keep_alive s2 h = keep_alive s h) \<and>
              (\<forall>t. index2adr t 1 = Some (LUserdata h) \<and> handles t h = handles s1 h \<longrightarrow>
                   (\<exists>t'. luv_read_stop t = Inr (0, t') \<and>
                         keep_alive t' h = keep_alive t h - 1 \<and>
                         keep_alive t' h = keep_alive s h))"
proof -
  define lh1 where "lh1 = lh\<lparr>refCount := refCount lh + 1\<rparr>"
  define s1 where
    "s1 = s\<lparr>handles := (handles s)(h \<mapsto> lh1), uv_log := uv_log s @ [UvReadStart h]\<rparr>"
  have start: "luv_read_start s = Inr (0, s1)"
    using assms(1,2) by (simp add: luv_read_start_run s1_def lh1_def)
  have h1: "handles s1 h = Some lh1"
    by (simp add: s1_def)
  have pinned: "1 \<le> refCount lh1"
    using assms(3) by (simp add: lh1_def)
  have up: "keep_alive s1 h = keep_alive s h + 1"
    using assms(2) by (simp add: keep_alive_def s1_def lh1_def)
  have stop: "\<exists>t'. luv_read_stop t = Inr (0, t') \<and> keep_alive t' h = keep_alive t h - 1 \<and>
                   keep_alive t' h = keep_alive s h"
    if t: "index2adr t 1 = Some (LUserdata h)" "handles t h = handles s1 h" for t
  proof -
    have ht: "handles t h = Some lh1"
      using t(2) h1 by simp
    have "luv_read_stop t =
        Inr (0, t\<lparr>handles := (handles t)(h \<mapsto> lh1\<lparr>refCount := refCount lh1 - 1\<rparr>),
                  uv_log := uv_log t @ [UvReadStop h]\<rparr>)"
      using t(1) ht pinned by (rule luv_read_stop_run)
    then show ?thesis
      using ht assms(2) by (simp add: keep_alive_def lh1_def)
  qed
  have s1_frame: "index2adr s1 1 = Some (LUserdata h)"
    using assms(1) index2adr_same_stack [of s1 s 1] by (simp add: s1_def)
  from stop [OF s1_frame refl] up
  have pair: "\<exists>s2. luv_read_stop s1 = Inr (0, s2) \<and> keep_alive s2 h = keep_alive s1 h - 1 \<and>
                  keep_alive s2 h = keep_alive s h"
    by simp
  from start up pair stop show ?thesis
    by blast
qed

theorem read_start_read_stop_net_zero_witness:
  "index2adr example_world 1 = Some (LUserdata 1) \<and>
   handles example_world 1 = Some example_handle \<and>
   0 \<le> refCount example_handle \<and>
   keep_alive example_world 1 = 0 \<and>
   (\<exists>s1 s2. luv_read_start example_world = Inr (0, s1) \<and> keep_alive s1 1 = 1 \<and>
            luv_read_stop s1 = Inr (0, s2) \<and> keep_alive s2 1 = 0)"
proof -
  have a: "index2adr example_world 1 = Some (LUserdata 1)"
    by (simp add: index2adr_def example_world_def)
  have b: "handles example_world 1 = Some example_handle"
    by (simp add: example_world_def)
  have c: "0 \<le> refCount example_handle"
    by (simp add: example_handle_def)
  have d: "keep_alive example_world 1 = 0"
    by (simp add: keep_alive_def example_world_def example_handle_def)
  from read_start_read_stop_net_zero [OF a b c] d
  have "\<exists>s1 s2. luv_read_start example_world = Inr (0, s1) \<and> keep_alive s1 1 = 1 \<and>
            luv_read_stop s1 = Inr (0, s2) \<and> keep_alive s2 1 = 0"
    by auto
  with a b c d show ?thesis
    by blast
qed


section \<open>The completion of a request\<close>

lemma after_request_run:
  assumes r: "reqs s req = Some r" and c: "ctxs s (req_data r) = Some c"
    and h: "handles s (req_handle r) = Some lh" and rc: "1 \<le> refCount lh"
    and l1: "req \<in> live s" and l2: "req_data r \<in> live s"
    and n1: "req \<noteq> 0" and n2: "req_data r \<noteq> 0" and ne: "req \<noteq> req_data r"
  shows "after_request opname req status s =
     Inr (s\<lparr>registry := release_refs c (registry s),
            handles := (handles s)(req_handle r \<mapsto> lh\<lparr>refCount := refCount lh - 1\<rparr>),
            live := live s - {req_data r} - {req},
            free_log := free_log s @ [req_data r, req],
            reqs := (reqs s)(req_data r := None, req := None),
            ctxs := (ctxs s)(req_data r := None, req := None),
            trace := trace s @
              callback_invocation opname status s
                (case registry s (rcb c) of Some v \<Rightarrow> v | None \<Rightarrow> LNil)\<rparr>)"
proof -
  define cb where "cb = (case registry s (rcb c) of Some v \<Rightarrow> v | None \<Rightarrow> LNil)"
  define s3 where "s3 = s\<lparr>registry := release_refs c (registry s)\<rparr>"
  define s4 where "s4 = s3\<lparr>trace := trace s @ callback_invocation opname status s cb\<rparr>"
  have call: "(if lua_isfunction (lua_push cb s3) (-1) then
                 (if status = -1
                  then luv_acall 1 opname
                         (luv_push_async_error (last_error (lua_push cb s3)) opname (lua_push cb s3))
                  else luv_acall 0 opname (lua_push cb s3))
               else lua_pop 1 (lua_push cb s3)) = s4"
    by (cases cb)
       (simp_all add: lua_isfunction_push luv_push_async_error_def luv_acall_0 luv_acall_1
          s4_def s3_def callback_invocation_def)
  have h4: "handles s4 (req_handle r) = Some lh"
    using h by (simp add: s4_def s3_def)
  have unref: "luv_handle_unref (req_handle r) s4 =
      Inr (s4\<lparr>handles := (handles s4)(req_handle r \<mapsto> lh\<lparr>refCount := refCount lh - 1\<rparr>)\<rparr>)"
    using h4 rc by (rule luv_handle_unref_run)
  show ?thesis
    using r c h l1 l2 n1 n2 ne
    apply (simp add: after_request_def luv_handle_get_lua_run luv_io_ctx_callback_rawgeti_run
        luv_io_ctx_unref_run cb_def [symmetric] s3_def [symmetric] split del: if_split)
    apply (simp only: call unref then_do_Inr)
    apply (simp add: free_run s4_def s3_def)
    done
qed

lemma pending_cases:
  assumes "pending s req"
  obtains r c lh where "reqs s req = Some r" and "ctxs s (req_data r) = Some c"
    and "handles s (req_handle r) = Some lh" and "1 \<le> refCount lh"
    and "req \<in> live s" and "req_data r \<in> live s"
    and "req \<noteq> 0" and "req_data r \<noteq> 0" and "req \<noteq> req_data r"
  using assms by (auto simp: pending_def split: option.splits)

lemma connect_pending_cases:
  assumes "connect_pending s req"
  obtains r lh where "reqs s req = Some r" and "handles s (req_handle r) = Some lh"
    and "req \<in> live s" and "req \<noteq> 0"
  using assms by (auto simp: connect_pending_def split: option.splits)

lemma release_refs_rcb: "0 \<le> rcb c \<Longrightarrow> release_refs c reg (rcb c) = None"
  by (simp add: release_refs_def Let_def)

lemma after_request_discipline:
  assumes "pending s req"
  shows "completion_discipline opname req status s (after_request opname req status s)"
proof -
  from assms obtain r c lh where
    f: "reqs s req = Some r" "ctxs s (req_data r) = Some c"
       "handles s (req_handle r) = Some lh" "1 \<le> refCount lh"
       "req \<in> live s" "req_data r \<in> live s"
       "req \<noteq> 0" "req_data r \<noteq> 0" "req \<noteq> req_data r"
    by (rule pending_cases)
  note run = after_request_run [OF f, of opname status]
  show ?thesis
    using f
    by (simp add: run completion_discipline_def request_context_def request_handle_def
        registered_callback_def keep_alive_def freed_once_def release_refs_rcb)
qed

lemma luv_after_connect_run:
  assumes "reqs s req = Some r" and "handles s (req_handle r) = Some lh"
    and "req \<in> live s" and "req \<noteq> 0"
  shows "luv_after_connect req status s =
     Inr (s\<lparr>trace := trace s @
              (if status = -1
               then dispatch (buffers s) (req_handle r) (listeners lh ''error'') ''error''
                      [LError ''after_connect'' (last_error s)]
               else dispatch (buffers s) (req_handle r) (listeners lh ''connect'') ''connect'' []),
            live := live s - {req}, free_log := free_log s @ [req],
            reqs := (reqs s)(req := None), ctxs := (ctxs s)(req := None)\<rparr>)"
  using assms
  by (simp add: luv_after_connect_def luv_handle_get_lua_run luv_push_async_error_def
      luv_emit_event_0 luv_emit_event_1 free_run)

lemma luv_on_connection_run:
  assumes "handles s h = Some lh"
  shows "luv_on_connection h status s =
     Inr (s\<lparr>trace := trace s @
              (if status = -1
               then dispatch (buffers s) h (listeners lh ''error'') ''error''
                      [LError ''on_connection'' (last_error s)]
               else dispatch (buffers s) h (listeners lh ''connection'') ''connection'' [])\<rparr>)"
  using assms
  by (simp add: luv_on_connection_def luv_handle_get_lua_run luv_push_async_error_def
      luv_emit_event_0 luv_emit_event_1)

lemma example_pending_pending: "pending example_pending 1"
  by (simp add: pending_def example_pending_def example_handle_def)

lemma example_pending_connect_pending: "connect_pending example_pending 1"
  by (simp add: connect_pending_def example_pending_def example_handle_def)

text \<open>
  C1 (as amended). For every completed request of kind write or shutdown, the completion
  handler (\<^verbatim>\<open>luv_after_write\<close>, \<^verbatim>\<open>luv_after_shutdown\<close>) recovers the Callback Context
  from the Request, looks up and releases the registered callback reference, invokes
  the callback (if present) with an error value on failure or no arguments on success,
  releases the keep-alive reference of the Handle, and frees both the context and the
  Request. For kind connect, \<^verbatim>\<open>luv_after_connect\<close> instead emits the event "error" with
  an error value on failure (status -1) or the event "connect" with no arguments
  otherwise, and frees the Request only: the registry, the contexts and the keep-alive
  count of the Handle are as before.
\<close>

theorem completion_discipline_write_shutdown:
  "(pending s req \<longrightarrow>
      completion_discipline ''after_write'' req status s (luv_after_write req status s) \<and>
      completion_discipline ''after_shutdown'' req status s (luv_after_shutdown req status s)) \<and>
   (connect_pending s req \<longrightarrow>
      (\<exists>s'. luv_after_connect req status s = Inr s' \<and>
            trace s' = trace s @
              (if status = -1
               then dispatch (buffers s) (request_handle s req)
                      (listeners_of s (request_handle s req) ''error'') ''error''
                      [LError ''after_connect'' (last_error s)]
               else dispatch (buffers s) (request_handle s req)
                      (listeners_of s (request_handle s req) ''connect'') ''connect'' []) \<and>
            registry s' = registry s \<and> handles s' = handles s \<and>
            live s' = live s - {req} \<and> free_log s' = free_log s @ [req]))"
proof (intro conjI impI)
  assume "pending s req"
  then show "completion_discipline ''after_write'' req status s (luv_after_write req status s)"
    by (simp add: luv_after_write_eq after_request_discipline)
next
  assume "pending s req"
  then show "completion_discipline ''after_shutdown'' req status s (luv_after_shutdown req status s)"
    by (simp add: luv_after_shutdown_eq after_request_discipline)
next
  assume "connect_pending s req"
  then obtain r lh where
    f: "reqs s req = Some r" "handles s (req_handle r) = Some lh" "req \<in> live s" "req \<noteq> 0"
    by (rule connect_pending_cases)
  show "\<exists>s'. luv_after_connect req status s = Inr s' \<and>
            trace s' = trace s @
              (if status = -1
               then dispatch (buffers s) (request_handle s req)
                      (listeners_of s (request_handle s req) ''error'') ''error''
                      [LError ''after_connect'' (last_error s)]
               else dispatch (buffers s) (request_handle s req)
                      (listeners_of s (request_handle s req) ''connect'') ''connect'' []) \<and>
            registry s' = registry s \<and> handles s' = handles s \<and>
            live s' = live s - {req} \<and> free_log s' = free_log s @ [req]"
    using f
    by (simp add: luv_after_connect_run [OF f] request_handle_def listeners_of_def)
qed

theorem completion_discipline_write_shutdown_witness:
  "pending example_pending 1 \<and> connect_pending example_pending 1 \<and>
   completion_discipline ''after_write'' 1 (-1) example_pending
     (luv_after_write 1 (-1) example_pending) \<and>
   completion_discipline ''after_shutdown'' 1 0 example_pending
     (luv_after_shutdown 1 0 example_pending) \<and>
   (\<exists>s'. luv_after_connect 1 0 example_pending = Inr s' \<and>
         map fst (trace s') = [Emit 1 ''connect'' []] \<and> free_log s' = [1])"
proof -
  note p = example_pending_pending
  note q = example_pending_connect_pending
  from completion_discipline_write_shutdown [of example_pending 1 "-1"] p
  have w: "completion_discipline ''after_write'' 1 (-1) example_pending
     (luv_after_write 1 (-1) example_pending)"
    by blast
  from completion_discipline_write_shutdown [of example_pending 1 0] p
  have sh: "completion_discipline ''after_shutdown'' 1 0 example_pending
     (luv_after_shutdown 1 0 example_pending)"
    by blast
  from completion_discipline_write_shutdown [of example_pending 1 0] q
  have "\<exists>s'. luv_after_connect 1 0 example_pending = Inr s' \<and>
         trace s' = trace example_pending @
           dispatch (buffers example_pending) (request_handle example_pending 1)
             (listeners_of example_pending (request_handle example_pending 1) ''connect'')
             ''connect'' [] \<and>
         free_log s' = free_log example_pending @ [1]"
    by auto
  then have c: "\<exists>s'. luv_after_connect 1 0 example_pending = Inr s' \<and>
         map fst (trace s') = [Emit 1 ''connect'' []] \<and> free_log s' = [1]"
    by (auto simp: example_pending_def request_handle_def listeners_of_def dispatch_def
        example_handle_def)
  from p q w sh c show ?thesis
    by blast
qed

text \<open>
  C1 as stated fails for the connect kind. In the example, request 1 with context 2 is
  in flight on handle 1, pinned once, with a callback registered under reference 3.
  After \<^verbatim>\<open>luv_after_connect\<close> the callback reference is still registered, the keep-alive
  count is still 1 and the context block is still live: the discipline does not hold.
\<close>

theorem after_connect_discipline_counterexample:
  "pending example_pending 1 \<and>
   luv_after_connect 1 0 example_pending =
     Inr (example_pending\<lparr>trace := [(Emit 1 ''connect'' [], buffers example_pending)],
                          live := {2}, free_log := [1],
                          reqs := Map.empty, ctxs := [2 \<mapsto> \<lparr>rcb = 3, rdata = 2\<rparr>]\<rparr>) \<and>
   \<not> completion_discipline ''after_connect'' 1 0 example_pending
       (luv_after_connect 1 0 example_pending)"
proof -
  have r: "reqs example_pending 1 = Some \<lparr>req_data = 2, req_handle = 1\<rparr>"
    by (simp add: example_pending_def)
  have h: "handles example_pending (req_handle \<lparr>req_data = 2, req_handle = 1\<rparr>) =
             Some (example_handle\<lparr>refCount := 1\<rparr>)"
    by (simp add: example_pending_def)
  have l: "(1::nat) \<in> live example_pending" "(1::nat) \<noteq> 0"
    by (simp_all add: example_pending_def)
  have run: "luv_after_connect 1 0 example_pending =
     Inr (example_pending\<lparr>trace := [(Emit 1 ''connect'' [], buffers example_pending)],
                          live := {2}, free_log := [1],
                          reqs := Map.empty, ctxs := [2 \<mapsto> \<lparr>rcb = 3, rdata = 2\<rparr>]\<rparr>)"
    unfolding luv_after_connect_run [OF r h l]
    by (simp add: example_pending_def example_handle_def dispatch_def)
  have "\<not> completion_discipline ''after_connect'' 1 0 example_pending
       (luv_after_connect 1 0 example_pending)"
    unfolding run
    by (simp add: completion_discipline_def request_context_def request_handle_def
        keep_alive_def example_pending_def example_handle_def)
  with example_pending_pending run show ?thesis
    by blast
qed


section \<open>Issuing a write and completing it\<close>

lemma luaL_ref_push:
  "v \<noteq> LNil \<Longrightarrow>
   luaL_ref (lua_push v s) =
     (int (Suc (ref_top s)),
      s\<lparr>registry := (registry s)(int (Suc (ref_top s)) \<mapsto> v), ref_top := Suc (ref_top s)\<rparr>)"
  by (cases v; simp add: luaL_ref_def) (simp_all add: lua_push_def)

lemma luv_write_run:
  assumes a1: "index2adr s 1 = Some (LUserdata h)" and h: "handles s h = Some lh"
    and a2: "index2adr s 2 = Some (LBuffer chunk)" and b: "buffers s chunk = Some b"
    and a3: "index2adr s 3 = Some cb" and cb: "cb \<noteq> LNil"
    and m: "2 \<le> malloc_budget s"
  shows "luv_write s =
     Inr (0, s\<lparr>registry := (registry s)
                  (int (Suc (ref_top s)) \<mapsto> LBuffer chunk,
                   int (Suc (Suc (ref_top s))) \<mapsto> cb),
               ref_top := Suc (Suc (ref_top s)),
               handles := (handles s)(h \<mapsto> lh\<lparr>refCount := refCount lh + 1\<rparr>),
               live := insert (Suc (Suc (heap_top s))) (insert (Suc (heap_top s)) (live s)),
               heap_top := Suc (Suc (heap_top s)),
               malloc_budget := malloc_budget s - 2,
               reqs := (reqs s)(Suc (heap_top s) \<mapsto>
                         \<lparr>req_data = Suc (Suc (heap_top s)), req_handle = h\<rparr>),
               ctxs := (ctxs s)(Suc (Suc (heap_top s)) \<mapsto>
                         \<lparr>rcb = int (Suc (Suc (ref_top s))), rdata = int (Suc (ref_top s))\<rparr>),
               uv_log := uv_log s @ [UvWrite (Suc (heap_top s)) h chunk (blength b)]\<rparr>)"
  using assms
  apply (simp add: luv_write_def luv_checkudata_run buffer_get_run malloc_def)
  apply (simp add: luv_io_ctx_init_def luv_io_ctx_add_def luv_io_ctx_callback_add_def
      lua_pushvalue_run luaL_ref_push)
  apply (simp add: set_req_data_def luv_handle_ref_def uv_write_def set_req_handle_def
      uv_req_update_all split: option.splits)
  done

text \<open>
  C2. For every \<open>write(handle, buffer, cb)\<close> whose completion arrives: on success
  (status not -1) \<open>cb\<close> is invoked with zero arguments; on failure (status -1) \<open>cb\<close> is
  invoked with exactly one error-value argument carrying the operation name
  "after_write"; in both cases the keep-alive count of the handle is decremented by one,
  back to its value before the write, and the memory of the Request is released exactly
  once. Between issue and completion the script frame and the last native error may
  have changed (\<open>stk\<close>, \<open>err\<close>). The Request is the block \<open>Suc (heap_top s)\<close>.
\<close>

theorem write_completion:
  assumes "index2adr s 1 = Some (LUserdata h)" and "handles s h = Some lh"
    and "0 \<le> refCount lh"
    and "index2adr s 2 = Some (LBuffer chunk)" and "buffers s chunk = Some b"
    and "index2adr s 3 = Some (LFunction cb)"
    and "2 \<le> malloc_budget s"
  shows "\<exists>s1. luv_write s = Inr (0, s1) \<and>
              uv_log s1 = uv_log s @ [UvWrite (Suc (heap_top s)) h chunk (blength b)] \<and>
              keep_alive s1 h = keep_alive s h + 1 \<and>
              (\<forall>status err stk.
                 \<exists>s2. luv_after_write (Suc (heap_top s)) status
                         (s1\<lparr>last_error := err, stack := stk\<rparr>) = Inr s2 \<and>
                      trace s2 = trace s @
                        [(Invoke (LFunction cb)
                            (if status = -1 then [LError ''after_write'' err] else [])
                            ''after_write'', buffers s)] \<and>
                      keep_alive s2 h = keep_alive s1 h - 1 \<and>
                      keep_alive s2 h = keep_alive s h \<and>
                      freed_once s s2 (Suc (heap_top s)))"
proof -
  define req where "req = Suc (heap_top s)"
  define cbs where "cbs = Suc (Suc (heap_top s))"
  define r where "r = \<lparr>req_data = cbs, req_handle = h\<rparr>"
  define c where "c = \<lparr>rcb = int (Suc (Suc (ref_top s))), rdata = int (Suc (ref_top s))\<rparr>"
  define lh1 where "lh1 = lh\<lparr>refCount := refCount lh + 1\<rparr>"
  define s1 where
    "s1 = s\<lparr>registry := (registry s)
                  (int (Suc (ref_top s)) \<mapsto> LBuffer chunk,
                   int (Suc (Suc (ref_top s))) \<mapsto> LFunction cb),
               ref_top := Suc (Suc (ref_top s)),
               handles := (handles s)(h \<mapsto> lh1),
               live := insert cbs (insert req (live s)),
               heap_top := Suc (Suc (heap_top s)),
               malloc_budget := malloc_budget s - 2,
               reqs := (reqs s)(req \<mapsto> r),
               ctxs := (ctxs s)(cbs \<mapsto> c),
               uv_log := uv_log s @ [UvWrite req h chunk (blength b)]\<rparr>"
  have issue: "luv_write s = Inr (0, s1)"
    using luv_write_run [OF assms(1,2,4,5,6) _ assms(7)]
    by (simp add: s1_def req_def cbs_def r_def c_def lh1_def)
  have log: "uv_log s1 = uv_log s @ [UvWrite req h chunk (blength b)]"
    by (simp add: s1_def)
  have up: "keep_alive s1 h = keep_alive s h + 1"
    using assms(2) by (simp add: keep_alive_def s1_def lh1_def)
  have completes: "\<exists>s2. luv_after_write req status (s1\<lparr>last_error := err, stack := stk\<rparr>) = Inr s2 \<and>
                 trace s2 = trace s @
                   [(Invoke (LFunction cb)
                       (if status = -1 then [LError ''after_write'' err] else [])
                       ''after_write'', buffers s)] \<and>
                 keep_alive s2 h = keep_alive s1 h - 1 \<and>
                 keep_alive s2 h = keep_alive s h \<and>
                 freed_once s s2 req"
    for status err stk
  proof -
    define t where "t = s1\<lparr>last_error := err, stack := stk\<rparr>"
    have f: "reqs t req = Some r" "ctxs t (req_data r) = Some c"
      "handles t (req_handle r) = Some lh1" "1 \<le> refCount lh1"
      "req \<in> live t" "req_data r \<in> live t"
      "req \<noteq> 0" "req_data r \<noteq> 0" "req \<noteq> req_data r"
      using assms(3) by (simp_all add: t_def s1_def r_def lh1_def req_def cbs_def)
    have cbv: "registry t (rcb c) = Some (LFunction cb)"
      by (simp add: t_def s1_def c_def)
    have pr: "trace t = trace s" "buffers t = buffers s" "last_error t = err"
      "free_log t = free_log s" "live t = insert cbs (insert req (live s))"
      "handles t = (handles s)(h \<mapsto> lh1)"
      by (simp_all add: t_def s1_def)
    have k1: "handles s1 h = Some lh1" "handles s h = Some lh"
      using assms(2) by (simp_all add: s1_def)
    have ne: "cbs \<noteq> req"
      by (simp add: req_def cbs_def)
    note run = after_request_run [OF f, of "''after_write''" status]
    show ?thesis
      unfolding luv_after_write_eq t_def [symmetric] run
      using ne
      by (simp add: cbv pr k1 callback_invocation_def keep_alive_def freed_once_def
          r_def lh1_def)
  qed
  from issue log up completes show ?thesis
    unfolding req_def by blast
qed

theorem write_completion_witness:
  "index2adr example_world 1 = Some (LUserdata 1) \<and>
   handles example_world 1 = Some example_handle \<and>
   0 \<le> refCount example_handle \<and>
   index2adr example_world 2 = Some (LBuffer 1) \<and>
   buffers example_world 1 = Some \<lparr>bdata = ''hello'', isConst = 0\<rparr> \<and>
   index2adr example_world 3 = Some (LFunction 7) \<and>
   2 \<le> malloc_budget example_world \<and>
   (\<exists>s1 s2 s3. luv_write example_world = Inr (0, s1) \<and>
      uv_log s1 = [UvWrite 1 1 1 5] \<and> keep_alive s1 1 = 1 \<and>
      luv_after_write 1 0 (s1\<lparr>last_error := UV_OK, stack := []\<rparr>) = Inr s2 \<and>
      map fst (trace s2) = [Invoke (LFunction 7) [] ''after_write''] \<and>
      keep_alive s2 1 = 0 \<and> count_list (free_log s2) 1 = 1 \<and>
      luv_after_write 1 (-1) (s1\<lparr>last_error := UV_ERRNO 32, stack := []\<rparr>) = Inr s3 \<and>
      map fst (trace s3) =
        [Invoke (LFunction 7) [LError ''after_write'' (UV_ERRNO 32)] ''after_write''] \<and>
      keep_alive s3 1 = 0 \<and> count_list (free_log s3) 1 = 1)"
proof -
  have a: "index2adr example_world 1 = Some (LUserdata 1)"
    "index2adr example_world 2 = Some (LBuffer 1)"
    "index2adr example_world 3 = Some (LFunction 7)"
    by (simp_all add: index2adr_def example_world_def)
  have b: "handles example_world 1 = Some example_handle"
    "buffers example_world 1 = Some \<lparr>bdata = ''hello'', isConst = 0\<rparr>"
    "2 \<le> malloc_budget example_world"
    by (simp_all add: example_world_def)
  have c: "0 \<le> refCount example_handle"
    by (simp add: example_handle_def)
  from write_completion [OF a(1) b(1) c a(2) b(2) a(3) b(3)]
  obtain s1 where s1: "luv_write example_world = Inr (0, s1)"
    "uv_log s1 = uv_log example_world @
       [UvWrite (Suc (heap_top example_world)) 1 1 (blength \<lparr>bdata = ''hello'', isConst = 0\<rparr>)]"
    "keep_alive s1 1 = keep_alive example_world 1 + 1"
    and fin: "\<And>status err stk.
       \<exists>s2. luv_after_write (Suc (heap_top example_world)) status
               (s1\<lparr>last_error := err, stack := stk\<rparr>) = Inr s2 \<and>
            trace s2 = trace example_world @
              [(Invoke (LFunction 7)
                  (if status = -1 then [LError ''after_write'' err] else [])
                  ''after_write'', buffers example_world)] \<and>
            keep_alive s2 1 = keep_alive s1 1 - 1 \<and>
            keep_alive s2 1 = keep_alive example_world 1 \<and>
            freed_once example_world s2 (Suc (heap_top example_world))"
    by blast
  have e: "heap_top example_world = 0" "trace example_world = []"
    "free_log example_world = []" "uv_log example_world = []"
    "keep_alive example_world 1 = 0"
    by (simp_all add: example_world_def keep_alive_def example_handle_def)
  have l: "uv_log s1 = [UvWrite 1 1 1 5]" "keep_alive s1 1 = 1"
    using s1(2,3) e by (simp_all add: blength_def)
  from fin [where status = 0 and err = UV_OK and stk = "[]"] obtain s2 where
    r2: "luv_after_write (Suc (heap_top example_world)) 0
           (s1\<lparr>last_error := UV_OK, stack := []\<rparr>) = Inr s2"
      "trace s2 = trace example_world @
         [(Invoke (LFunction 7) (if (0::int) = -1 then [LError ''after_write'' UV_OK] else [])
             ''after_write'', buffers example_world)]"
      "keep_alive s2 1 = keep_alive example_world 1"
      "freed_once example_world s2 (Suc (heap_top example_world))"
    by blast
  have s2: "luv_after_write 1 0 (s1\<lparr>last_error := UV_OK, stack := []\<rparr>) = Inr s2"
    "map fst (trace s2) = [Invoke (LFunction 7) [] ''after_write'']"
    "keep_alive s2 1 = 0" "count_list (free_log s2) 1 = 1"
    using r2 e by (simp_all add: freed_once_def)
  from fin [where status = "-1" and err = "UV_ERRNO 32" and stk = "[]"] obtain s3 where
    r3: "luv_after_write (Suc (heap_top example_world)) (-1)
           (s1\<lparr>last_error := UV_ERRNO 32, stack := []\<rparr>) = Inr s3"
      "trace s3 = trace example_world @
         [(Invoke (LFunction 7)
             (if (-1::int) = -1 then [LError ''after_write'' (UV_ERRNO 32)] else [])
             ''after_write'', buffers example_world)]"
      "keep_alive s3 1 = keep_alive example_world 1"
      "freed_once example_world s3 (Suc (heap_top example_world))"
    by blast
  have s3: "luv_after_write 1 (-1) (s1\<lparr>last_error := UV_ERRNO 32, stack := []\<rparr>) = Inr s3"
    "map fst (trace s3) =
       [Invoke (LFunction 7) [LError ''after_write'' (UV_ERRNO 32)] ''after_write'']"
    "keep_alive s3 1 = 0" "count_list (free_log s3) 1 = 1"
    using r3 e by (simp_all add: freed_once_def)
  have ex: "\<exists>s1 s2 s3. luv_write example_world = Inr (0, s1) \<and>
      uv_log s1 = [UvWrite 1 1 1 5] \<and> keep_alive s1 1 = 1 \<and>
      luv_after_write 1 0 (s1\<lparr>last_error := UV_OK, stack := []\<rparr>) = Inr s2 \<and>
      map fst (trace s2) = [Invoke (LFunction 7) [] ''after_write''] \<and>
      keep_alive s2 1 = 0 \<and> count_list (free_log s2) 1 = 1 \<and>
      luv_after_write 1 (-1) (s1\<lparr>last_error := UV_ERRNO 32, stack := []\<rparr>) = Inr s3 \<and>
      map fst (trace s3) =
        [Invoke (LFunction 7) [LError ''after_write'' (UV_ERRNO 32)] ''after_write''] \<and>
      keep_alive s3 1 = 0 \<and> count_list (free_log s3) 1 = 1"
    apply (rule exI [of _ s1])
    apply (rule exI [of _ s2])
    apply (rule exI [of _ s3])
    using s1(1) l s2 s3
    apply simp
    done
  from a b c ex show ?thesis
    by simp
qed


section \<open>Data arrival\<close>

lemma luv_on_read_guard:
  assumes "handles s h = Some lh" and "buffers s (hbuffer lh) = Some b"
    and "0 \<le> nread" and "isConst b = 1"
  shows "luv_on_read h nread base s = Inl (LuaError reentry_message, lua_push (LUserdata h) s)"
  using assms by (simp add: luv_on_read_def luv_handle_get_lua_run)

lemma luv_on_read_end:
  assumes "handles s h = Some lh" and "nread < 0" and "last_error s = UV_EOF"
    and "base \<in> live s" and "base \<noteq> 0"
  shows "luv_on_read h nread base s =
     Inr (s\<lparr>trace := trace s @ dispatch (buffers s) h (listeners lh ''end'') ''end'' [],
            live := live s - {base}, free_log := free_log s @ [base],
            reqs := (reqs s)(base := None), ctxs := (ctxs s)(base := None)\<rparr>)"
  using assms
  by (simp add: luv_on_read_def luv_handle_get_lua_run luv_emit_event_0 free_run)

lemma luv_on_read_error:
  assumes "handles s h = Some lh" and "nread < 0" and "last_error s \<noteq> UV_EOF"
    and "base \<in> live s" and "base \<noteq> 0"
  shows "luv_on_read h nread base s =
     Inr (s\<lparr>trace := trace s @
              dispatch (buffers s) h (listeners lh ''error'') ''error''
                [LError ''on_read'' (last_error s)],
            live := live s - {base}, free_log := free_log s @ [base],
            reqs := (reqs s)(base := None), ctxs := (ctxs s)(base := None)\<rparr>)"
  using assms
  by (simp add: luv_on_read_def luv_handle_get_lua_run luv_push_async_error_def
      luv_emit_event_1 free_run)

lemma luv_on_read_data_same:
  assumes "handles s h = Some lh" and "buffers s (hbuffer lh) = Some b"
    and "nread = int (blength b)" and "isConst b \<noteq> 1"
    and "base \<in> live s" and "base \<noteq> 0"
  shows "luv_on_read h nread base s =
     Inr (s\<lparr>buffers := (buffers s)(hbuffer lh \<mapsto> b\<lparr>isConst := 0\<rparr>),
            trace := trace s @
              dispatch ((buffers s)(hbuffer lh \<mapsto> b\<lparr>isConst := 1\<rparr>)) h
                (listeners lh ''data'') ''data''
                [case registry s (href lh) of Some v \<Rightarrow> v | None \<Rightarrow> LNil, LInteger nread],
            live := live s - {base}, free_log := free_log s @ [base],
            reqs := (reqs s)(base := None), ctxs := (ctxs s)(base := None)\<rparr>)"
  using assms
  by (simp add: luv_on_read_def luv_handle_get_lua_run lua_rawgeti_registry_def
      lua_pushinteger_def set_isConst_run lua_push_buffers_update luv_emit_event_2 free_run)

lemma luv_on_read_data_slice:
  assumes "handles s h = Some lh" and "buffers s (hbuffer lh) = Some b"
    and "0 \<le> nread" and "nread \<noteq> int (blength b)" and "isConst b \<noteq> 1"
    and "hbuffer lh \<noteq> next_buf s"
    and "base \<in> live s" and "base \<noteq> 0"
  shows "luv_on_read h nread base s =
     Inr (s\<lparr>buffers := (buffers s)
              (next_buf s \<mapsto> \<lparr>bdata = take (nat nread) (bdata b), isConst = 0\<rparr>,
               hbuffer lh \<mapsto> b\<lparr>isConst := 0\<rparr>),
            next_buf := Suc (next_buf s),
            trace := trace s @
              dispatch ((buffers s)
                   (next_buf s \<mapsto> \<lparr>bdata = take (nat nread) (bdata b), isConst = 0\<rparr>,
                    hbuffer lh \<mapsto> b\<lparr>isConst := 1\<rparr>)) h
                (listeners lh ''data'') ''data''
                [LBuffer (next_buf s), LInteger nread],
            live := live s - {base}, free_log := free_log s @ [base],
            reqs := (reqs s)(base := None), ctxs := (ctxs s)(base := None)\<rparr>)"
  using assms
  by (simp add: luv_on_read_def luv_handle_get_lua_run lua_rawgeti_registry_def buffer_slice_run
      lua_remove_2 lua_pushinteger_def set_isConst_run lua_push_buffers_update luv_emit_event_2
      free_run)

lemma dispatch_snapshots:
  "map snd (dispatch snap h ls name args) = replicate (Suc (length ls)) snap"
  by (simp add: dispatch_def comp_def map_replicate_const)

lemma dispatch_effects:
  "map fst (dispatch snap h ls name args) = Emit h name args # map (\<lambda>f. Invoke f args name) ls"
  by (simp add: dispatch_def comp_def)

text \<open>The buffer that a delivery of \<open>nread\<close> bytes hands to the "data" event.\<close>

lemma luv_on_read_data:
  assumes h: "handles s h = Some lh" and b: "buffers s (hbuffer lh) = Some b"
    and n: "0 \<le> nread" and g: "isConst b \<noteq> 1"
    and f: "hbuffer lh \<noteq> next_buf s"
    and l: "base \<in> live s" "base \<noteq> 0"
  shows "\<exists>s' snap arg.
           luv_on_read h nread base s = Inr s' \<and>
           trace s' = trace s @
             dispatch snap h (listeners lh ''data'') ''data'' [arg, LInteger nread] \<and>
           flag_in snap (hbuffer lh) = Some 1 \<and>
           flag_in (buffers s') (hbuffer lh) = Some 0 \<and>
           free_log s' = free_log s @ [base] \<and> live s' = live s - {base}"
proof (cases "nread = int (blength b)")
  case True
  show ?thesis
    unfolding luv_on_read_data_same [OF h b True g l]
    apply (rule exI [of _ "s\<lparr>buffers := (buffers s)(hbuffer lh \<mapsto> b\<lparr>isConst := 0\<rparr>),
            trace := trace s @
              dispatch ((buffers s)(hbuffer lh \<mapsto> b\<lparr>isConst := 1\<rparr>)) h
                (listeners lh ''data'') ''data''
                [case registry s (href lh) of Some v \<Rightarrow> v | None \<Rightarrow> LNil, LInteger nread],
            live := live s - {base}, free_log := free_log s @ [base],
            reqs := (reqs s)(base := None), ctxs := (ctxs s)(base := None)\<rparr>"])
    apply (rule exI [of _ "(buffers s)(hbuffer lh \<mapsto> b\<lparr>isConst := 1\<rparr>)"])
    apply (rule exI [of _ "case registry s (href lh) of Some v \<Rightarrow> v | None \<Rightarrow> LNil"])
    apply (simp add: flag_in_def)
    done
next
  case False
  show ?thesis
    unfolding luv_on_read_data_slice [OF h b n False g f l]
    apply (rule exI [of _ "s\<lparr>buffers := (buffers s)
              (next_buf s \<mapsto> \<lparr>bdata = take (nat nread) (bdata b), isConst = 0\<rparr>,
               hbuffer lh \<mapsto> b\<lparr>isConst := 0\<rparr>),
            next_buf := Suc (next_buf s),
            trace := trace s @
              dispatch ((buffers s)
                   (next_buf s \<mapsto> \<lparr>bdata = take (nat nread) (bdata b), isConst = 0\<rparr>,
                    hbuffer lh \<mapsto> b\<lparr>isConst := 1\<rparr>)) h
                (listeners lh ''data'') ''data''
                [LBuffer (next_buf s), LInteger nread],
            live := live s - {base}, free_log := free_log s @ [base],
            reqs := (reqs s)(base := None), ctxs := (ctxs s)(base := None)\<rparr>"])
    apply (rule exI [of _ "(buffers s)
                   (next_buf s \<mapsto> \<lparr>bdata = take (nat nread) (bdata b), isConst = 0\<rparr>,
                    hbuffer lh \<mapsto> b\<lparr>isConst := 1\<rparr>)"])
    apply (rule exI [of _ "LBuffer (next_buf s)"])
    apply (simp add: flag_in_def)
    done
qed

text \<open>
  C3. For every \<^verbatim>\<open>on_read\<close> invocation with \<open>nread >= 0\<close>, the read-only flag
  (\<^verbatim>\<open>isConst\<close>) of the buffer of the handle is set to true before the "data" event is
  dispatched and reset to false immediately after dispatch returns: the event and every
  listener invocation observe the flag at 1, nothing else reaches script code, and the
  flag is 0 in the world the function returns. If the flag is already true on entry
  (nested reentry), \<^verbatim>\<open>on_read\<close> raises an error to the caller instead of delivering data.
\<close>

theorem on_read_read_only_flag:
  assumes "handles s h = Some lh" and "buffers s (hbuffer lh) = Some b"
    and "0 \<le> nread"
    and "buffers s (next_buf s) = None"
    and "base \<in> live s" and "base \<noteq> 0"
  shows "(isConst b = 1 \<longrightarrow>
           (\<exists>s'. luv_on_read h nread base s = Inl (LuaError reentry_message, s') \<and>
                 trace s' = trace s \<and> buffers s' = buffers s)) \<and>
         (isConst b \<noteq> 1 \<longrightarrow>
           (\<exists>s' snap arg.
              luv_on_read h nread base s = Inr s' \<and>
              trace s' = trace s @
                dispatch snap h (listeners lh ''data'') ''data'' [arg, LInteger nread] \<and>
              flag_in snap (hbuffer lh) = Some 1 \<and>
              flag_in (buffers s') (hbuffer lh) = Some 0))"
proof (intro conjI impI)
  assume "isConst b = 1"
  then show "\<exists>s'. luv_on_read h nread base s = Inl (LuaError reentry_message, s') \<and>
                 trace s' = trace s \<and> buffers s' = buffers s"
    using assms by (simp add: luv_on_read_guard)
next
  assume g: "isConst b \<noteq> 1"
  have f: "hbuffer lh \<noteq> next_buf s"
    using assms(2,4) by auto
  from luv_on_read_data [OF assms(1,2,3) g f assms(5,6)]
  show "\<exists>s' snap arg.
              luv_on_read h nread base s = Inr s' \<and>
              trace s' = trace s @
                dispatch snap h (listeners lh ''data'') ''data'' [arg, LInteger nread] \<and>
              flag_in snap (hbuffer lh) = Some 1 \<and>
              flag_in (buffers s') (hbuffer lh) = Some 0"
    by blast
qed

lemma example_reading_facts:
  "handles example_reading 1 = Some example_handle"
  "buffers example_reading (hbuffer example_handle) = Some \<lparr>bdata = ''hello'', isConst = 0\<rparr>"
  "buffers example_reading (next_buf example_reading) = None"
  "registry example_reading (href example_handle) = Some (LBuffer (hbuffer example_handle))"
  "(3::nat) \<in> live example_reading" "(3::nat) \<noteq> 0"
  "listeners example_handle name = []" "hbuffer example_handle = 1"
  "trace example_reading = []" "free_log example_reading = []"
  "next_buf example_reading = 2"
  by (simp_all add: example_reading_def example_world_def example_handle_def)

lemma example_guard_facts:
  "handles example_guard 1 = Some example_handle"
  "buffers example_guard (hbuffer example_handle) = Some \<lparr>bdata = ''hello'', isConst = 1\<rparr>"
  "buffers example_guard (next_buf example_guard) = None"
  "(3::nat) \<in> live example_guard" "(3::nat) \<noteq> 0"
  "trace example_guard = []" "free_log example_guard = []" "live example_guard = {3}"
  by (simp_all add: example_guard_def example_reading_def example_world_def example_handle_def)

theorem on_read_read_only_flag_witness:
  "handles example_reading 1 = Some example_handle \<and>
   buffers example_reading (hbuffer example_handle) = Some \<lparr>bdata = ''hello'', isConst = 0\<rparr> \<and>
   buffers example_guard (hbuffer example_handle) = Some \<lparr>bdata = ''hello'', isConst = 1\<rparr> \<and>
   (\<exists>s'. luv_on_read 1 5 3 example_guard = Inl (LuaError reentry_message, s') \<and> trace s' = []) \<and>
   (\<exists>s' snap. luv_on_read 1 5 3 example_reading = Inr s' \<and>
       map fst (trace s') = [Emit 1 ''data'' [LBuffer 1, LInteger 5]] \<and>
       map snd (trace s') = [snap] \<and>
       flag_in snap 1 = Some 1 \<and> flag_in (buffers s') 1 = Some 0)"
proof -
  note r = example_reading_facts
  note g = example_guard_facts
  from on_read_read_only_flag [OF g(1,2) _ g(3,4,5), of 5]
  have raised: "\<exists>s'. luv_on_read 1 5 3 example_guard = Inl (LuaError reentry_message, s') \<and>
                   trace s' = []"
    by (auto simp: g)
  from on_read_read_only_flag [OF r(1,2) _ r(3,5,6), of 5]
  obtain s' snap arg where d: "luv_on_read 1 5 3 example_reading = Inr s'"
    "trace s' = trace example_reading @
       dispatch snap 1 (listeners example_handle ''data'') ''data'' [arg, LInteger 5]"
    "flag_in snap (hbuffer example_handle) = Some 1"
    "flag_in (buffers s') (hbuffer example_handle) = Some 0"
    by auto
  have same: "luv_on_read 1 5 3 example_reading =
      Inr (example_reading\<lparr>buffers := (buffers example_reading)
               (hbuffer example_handle \<mapsto> \<lparr>bdata = ''hello'', isConst = 0\<rparr>\<lparr>isConst := 0\<rparr>),
            trace := trace example_reading @
              dispatch ((buffers example_reading)
                  (hbuffer example_handle \<mapsto> \<lparr>bdata = ''hello'', isConst = 0\<rparr>\<lparr>isConst := 1\<rparr>)) 1
                (listeners example_handle ''data'') ''data''
                [case registry example_reading (href example_handle) of
                   Some v \<Rightarrow> v | None \<Rightarrow> LNil, LInteger 5],
            live := live example_reading - {3}, free_log := free_log example_reading @ [3],
            reqs := (reqs example_reading)(3 := None),
            ctxs := (ctxs example_reading)(3 := None)\<rparr>)"
    by (rule luv_on_read_data_same [OF r(1,2) _ _ r(5,6)]) (simp_all add: blength_def)
  have arg: "arg = LBuffer 1"
    using d(1,2) unfolding same by (auto simp: r dispatch_def)
  have "map fst (trace s') = [Emit 1 ''data'' [LBuffer 1, LInteger 5]] \<and>
        map snd (trace s') = [snap] \<and> flag_in snap 1 = Some 1 \<and>
        flag_in (buffers s') 1 = Some 0"
    using d(2,3,4) arg by (simp add: r dispatch_def)
  with d(1) have delivered: "\<exists>s' snap. luv_on_read 1 5 3 example_reading = Inr s' \<and>
       map fst (trace s') = [Emit 1 ''data'' [LBuffer 1, LInteger 5]] \<and>
       map snd (trace s') = [snap] \<and>
       flag_in snap 1 = Some 1 \<and> flag_in (buffers s') 1 = Some 0"
    by - (rule exI [of _ s'], rule exI [of _ snap], simp)
  from r(1,2) g(2) raised delivered show ?thesis
    by simp
qed

text \<open>
  C5. For every \<^verbatim>\<open>on_read\<close> delivery with \<open>nread >= 0\<close> into a buffer of length \<open>L\<close>: if
  \<open>nread = L\<close> the buffer passed to the "data" event is the identical buffer (no copy, no
  slice: no buffer is created); if \<open>nread < L\<close> the buffer passed is a slice of exactly
  \<open>nread\<close> bytes whose content equals the first \<open>nread\<close> bytes of the original buffer. The
  handle holds its buffer under its registry slot, and the next buffer name is unused.
\<close>

theorem on_read_identity_or_slice:
  assumes "handles s h = Some lh" and "buffers s (hbuffer lh) = Some b"
    and "registry s (href lh) = Some (LBuffer (hbuffer lh))"
    and "isConst b \<noteq> 1"
    and "buffers s (next_buf s) = None"
    and "base \<in> live s" and "base \<noteq> 0"
  shows "(nread = int (blength b) \<longrightarrow>
           (\<exists>s' snap.
              luv_on_read h nread base s = Inr s' \<and>
              trace s' = trace s @
                dispatch snap h (listeners lh ''data'') ''data''
                  [LBuffer (hbuffer lh), LInteger nread] \<and>
              next_buf s' = next_buf s \<and> dom (buffers s') = dom (buffers s) \<and>
              bytes_in snap (hbuffer lh) = Some (bdata b) \<and>
              bytes_in (buffers s') (hbuffer lh) = Some (bdata b))) \<and>
         (0 \<le> nread \<and> nread < int (blength b) \<longrightarrow>
           (\<exists>s' snap.
              luv_on_read h nread base s = Inr s' \<and>
              trace s' = trace s @
                dispatch snap h (listeners lh ''data'') ''data''
                  [LBuffer (next_buf s), LInteger nread] \<and>
              next_buf s \<noteq> hbuffer lh \<and>
              bytes_in snap (next_buf s) = Some (take (nat nread) (bdata b)) \<and>
              length (take (nat nread) (bdata b)) = nat nread \<and>
              bytes_in snap (hbuffer lh) = Some (bdata b)))"
proof (intro conjI impI)
  assume n: "nread = int (blength b)"
  have d: "insert (hbuffer lh) (dom (buffers s)) = dom (buffers s)"
    using assms(2) by auto
  show "\<exists>s' snap.
              luv_on_read h nread base s = Inr s' \<and>
              trace s' = trace s @
                dispatch snap h (listeners lh ''data'') ''data''
                  [LBuffer (hbuffer lh), LInteger nread] \<and>
              next_buf s' = next_buf s \<and> dom (buffers s') = dom (buffers s) \<and>
              bytes_in snap (hbuffer lh) = Some (bdata b) \<and>
              bytes_in (buffers s') (hbuffer lh) = Some (bdata b)"
    unfolding luv_on_read_data_same [OF assms(1,2) n assms(4,6,7)]
    apply (rule exI [of _ "s\<lparr>buffers := (buffers s)(hbuffer lh \<mapsto> b\<lparr>isConst := 0\<rparr>),
            trace := trace s @
              dispatch ((buffers s)(hbuffer lh \<mapsto> b\<lparr>isConst := 1\<rparr>)) h
                (listeners lh ''data'') ''data''
                [case registry s (href lh) of Some v \<Rightarrow> v | None \<Rightarrow> LNil, LInteger nread],
            live := live s - {base}, free_log := free_log s @ [base],
            reqs := (reqs s)(base := None), ctxs := (ctxs s)(base := None)\<rparr>"])
    apply (rule exI [of _ "(buffers s)(hbuffer lh \<mapsto> b\<lparr>isConst := 1\<rparr>)"])
    apply (simp add: assms(3) bytes_in_def d)
    done
next
  assume n: "0 \<le> nread \<and> nread < int (blength b)"
  then have n1: "0 \<le> nread" and n2: "nread \<noteq> int (blength b)"
    by simp_all
  have n3: "nat nread \<le> length (bdata b)"
    using n by (simp add: blength_def nat_le_iff)
  have f: "hbuffer lh \<noteq> next_buf s"
    using assms(2,5) by auto
  show "\<exists>s' snap.
              luv_on_read h nread base s = Inr s' \<and>
              trace s' = trace s @
                dispatch snap h (listeners lh ''data'') ''data''
                  [LBuffer (next_buf s), LInteger nread] \<and>
              next_buf s \<noteq> hbuffer lh \<and>
              bytes_in snap (next_buf s) = Some (take (nat nread) (bdata b)) \<and>
              length (take (nat nread) (bdata b)) = nat nread \<and>
              bytes_in snap (hbuffer lh) = Some (bdata b)"
    unfolding luv_on_read_data_slice [OF assms(1,2) n1 n2 assms(4) f assms(6,7)]
    apply (rule exI [of _ "s\<lparr>buffers := (buffers s)
              (next_buf s \<mapsto> \<lparr>bdata = take (nat nread) (bdata b), isConst = 0\<rparr>,
               hbuffer lh \<mapsto> b\<lparr>isConst := 0\<rparr>),
            next_buf := Suc (next_buf s),
            trace := trace s @
              dispatch ((buffers s)
                   (next_buf s \<mapsto> \<lparr>bdata = take (nat nread) (bdata b), isConst = 0\<rparr>,
                    hbuffer lh \<mapsto> b\<lparr>isConst := 1\<rparr>)) h
                (listeners lh ''data'') ''data''
                [LBuffer (next_buf s), LInteger nread],
            live := live s - {base}, free_log := free_log s @ [base],
            reqs := (reqs s)(base := None), ctxs := (ctxs s)(base := None)\<rparr>"])
    apply (rule exI [of _ "(buffers s)
                   (next_buf s \<mapsto> \<lparr>bdata = take (nat nread) (bdata b), isConst = 0\<rparr>,
                    hbuffer lh \<mapsto> b\<lparr>isConst := 1\<rparr>)"])
    using f n3 apply (simp add: bytes_in_def)
    done
qed

theorem on_read_identity_or_slice_witness:
  "handles example_reading 1 = Some example_handle \<and>
   buffers example_reading (hbuffer example_handle) = Some \<lparr>bdata = ''hello'', isConst = 0\<rparr> \<and>
   registry example_reading (href example_handle) = Some (LBuffer (hbuffer example_handle)) \<and>
   buffers example_reading (next_buf example_reading) = None \<and>
   (\<exists>s'. luv_on_read 1 5 3 example_reading = Inr s' \<and>
       map fst (trace s') = [Emit 1 ''data'' [LBuffer 1, LInteger 5]] \<and>
       next_buf s' = 2 \<and> bytes_in (buffers s') 1 = Some ''hello'') \<and>
   (\<exists>s' snap. luv_on_read 1 3 3 example_reading = Inr s' \<and>
       map fst (trace s') = [Emit 1 ''data'' [LBuffer 2, LInteger 3]] \<and>
       map snd (trace s') = [snap] \<and>
       bytes_in snap 2 = Some ''hel'' \<and> bytes_in snap 1 = Some ''hello'')"
proof -
  note r = example_reading_facts
  have g: "isConst \<lparr>bdata = ''hello'', isConst = 0\<rparr> \<noteq> 1"
    by simp
  note t = on_read_identity_or_slice [OF r(1,2,4) g r(3,5,6)]
  from t [of 5] have whole: "\<exists>s'. luv_on_read 1 5 3 example_reading = Inr s' \<and>
       map fst (trace s') = [Emit 1 ''data'' [LBuffer 1, LInteger 5]] \<and>
       next_buf s' = 2 \<and> bytes_in (buffers s') 1 = Some ''hello''"
    by (auto simp: r blength_def dispatch_def)
  from t [of 3] have part: "\<exists>s' snap. luv_on_read 1 3 3 example_reading = Inr s' \<and>
       map fst (trace s') = [Emit 1 ''data'' [LBuffer 2, LInteger 3]] \<and>
       map snd (trace s') = [snap] \<and>
       bytes_in snap 2 = Some ''hel'' \<and> bytes_in snap 1 = Some ''hello''"
    by (auto simp: r blength_def dispatch_def)
  from r(1,2,4,3) whole part show ?thesis
    by simp
qed


text \<open>
  C6 (as amended). For every \<^verbatim>\<open>on_read\<close> invocation with \<open>nread < 0\<close>: if the pending
  native error is EOF, the "end" event is emitted with zero arguments; for any other
  negative status, the "error" event is emitted with one constructed error value; and on
  every branch of \<^verbatim>\<open>on_read\<close> that runs to its end (data delivered, end, or error) the
  backing allocation of the native buffer (\<^verbatim>\<open>buf.base\<close>) is freed exactly once.
\<close>

theorem on_read_end_error_free:
  assumes "handles s h = Some lh" and "base \<in> live s" and "base \<noteq> 0"
  shows "(nread < 0 \<and> last_error s = UV_EOF \<longrightarrow>
           (\<exists>s'. luv_on_read h nread base s = Inr s' \<and>
                 trace s' = trace s @ dispatch (buffers s) h (listeners lh ''end'') ''end'' [] \<and>
                 freed_once s s' base)) \<and>
         (nread < 0 \<and> last_error s \<noteq> UV_EOF \<longrightarrow>
           (\<exists>s'. luv_on_read h nread base s = Inr s' \<and>
                 trace s' = trace s @
                   dispatch (buffers s) h (listeners lh ''error'') ''error''
                     [LError ''on_read'' (last_error s)] \<and>
                 freed_once s s' base)) \<and>
         (0 \<le> nread \<longrightarrow>
           (\<forall>b. buffers s (hbuffer lh) = Some b \<and> isConst b \<noteq> 1 \<and>
                buffers s (next_buf s) = None \<longrightarrow>
                (\<exists>s' snap arg.
                   luv_on_read h nread base s = Inr s' \<and>
                   trace s' = trace s @
                     dispatch snap h (listeners lh ''data'') ''data'' [arg, LInteger nread] \<and>
                   freed_once s s' base)))"
proof (intro conjI impI allI)
  assume "nread < 0 \<and> last_error s = UV_EOF"
  then show "\<exists>s'. luv_on_read h nread base s = Inr s' \<and>
                 trace s' = trace s @ dispatch (buffers s) h (listeners lh ''end'') ''end'' [] \<and>
                 freed_once s s' base"
    using assms by (simp add: luv_on_read_end freed_once_def)
next
  assume "nread < 0 \<and> last_error s \<noteq> UV_EOF"
  then show "\<exists>s'. luv_on_read h nread base s = Inr s' \<and>
                 trace s' = trace s @
                   dispatch (buffers s) h (listeners lh ''error'') ''error''
                     [LError ''on_read'' (last_error s)] \<and>
                 freed_once s s' base"
    using assms by (simp add: luv_on_read_error freed_once_def)
next
  fix b
  assume n: "0 \<le> nread"
    and b: "buffers s (hbuffer lh) = Some b \<and> isConst b \<noteq> 1 \<and> buffers s (next_buf s) = None"
  then have f: "hbuffer lh \<noteq> next_buf s"
    by auto
  from luv_on_read_data [OF assms(1) _ n _ f assms(2,3), of b] b
  obtain s' snap arg where d: "luv_on_read h nread base s = Inr s'"
    "trace s' = trace s @ dispatch snap h (listeners lh ''data'') ''data'' [arg, LInteger nread]"
    "free_log s' = free_log s @ [base]" "live s' = live s - {base}"
    by blast
  have "freed_once s s' base"
    using d(3,4) by (simp add: freed_once_def)
  with d(1,2) show "\<exists>s' snap arg.
                   luv_on_read h nread base s = Inr s' \<and>
                   trace s' = trace s @
                     dispatch snap h (listeners lh ''data'') ''data'' [arg, LInteger nread] \<and>
                   freed_once s s' base"
    by blast
qed

theorem on_read_end_error_free_witness:
  "handles example_reading 1 = Some example_handle \<and>
   (3::nat) \<in> live example_reading \<and>
   buffers example_reading (hbuffer example_handle) = Some \<lparr>bdata = ''hello'', isConst = 0\<rparr> \<and>
   last_error example_reading = UV_OK \<and>
   (\<exists>s'. luv_on_read 1 (-1) 3 (example_reading\<lparr>last_error := UV_EOF\<rparr>) = Inr s' \<and>
         map fst (trace s') = [Emit 1 ''end'' []] \<and> count_list (free_log s') 3 = 1) \<and>
   (\<exists>s'. luv_on_read 1 (-1) 3 example_reading = Inr s' \<and>
         map fst (trace s') = [Emit 1 ''error'' [LError ''on_read'' UV_OK]] \<and>
         count_list (free_log s') 3 = 1) \<and>
   (\<exists>s'. luv_on_read 1 5 3 example_reading = Inr s' \<and> count_list (free_log s') 3 = 1)"
proof -
  note r = example_reading_facts
  have e: "last_error example_reading = UV_OK"
    by (simp add: example_reading_def example_world_def)
  have r': "handles (example_reading\<lparr>last_error := UV_EOF\<rparr>) 1 = Some example_handle"
    "(3::nat) \<in> live (example_reading\<lparr>last_error := UV_EOF\<rparr>)"
    using r by simp_all
  from on_read_end_error_free [OF r' r(6), of "-1"]
  have a: "\<exists>s'. luv_on_read 1 (-1) 3 (example_reading\<lparr>last_error := UV_EOF\<rparr>) = Inr s' \<and>
         map fst (trace s') = [Emit 1 ''end'' []] \<and> count_list (free_log s') 3 = 1"
    using r by (auto simp: dispatch_def freed_once_def)
  from on_read_end_error_free [OF r(1,5,6), of "-1"]
  have b: "\<exists>s'. luv_on_read 1 (-1) 3 example_reading = Inr s' \<and>
         map fst (trace s') = [Emit 1 ''error'' [LError ''on_read'' UV_OK]] \<and>
         count_list (free_log s') 3 = 1"
    using r e by (auto simp: dispatch_def freed_once_def)
  from on_read_end_error_free [OF r(1,5,6), of 5]
  have c: "\<exists>s'. luv_on_read 1 5 3 example_reading = Inr s' \<and> count_list (free_log s') 3 = 1"
    using r by (auto simp: freed_once_def)
  from r(1,5,2) e a b c show ?thesis
    by simp
qed

text \<open>
  C6 as stated fails where the read-only guard stops the data branch: with \<open>nread = 5\<close>
  and the flag already set, \<^verbatim>\<open>on_read\<close> raises before it reaches \<^verbatim>\<open>free(buf.base)\<close>, and
  block 3 is still live with nothing logged as freed.
\<close>

theorem on_read_guard_no_free_counterexample:
  "luv_on_read 1 5 3 example_guard =
     Inl (LuaError reentry_message, lua_push (LUserdata 1) example_guard) \<and>
   (3::nat) \<in> live (lua_push (LUserdata 1) example_guard) \<and>
   free_log (lua_push (LUserdata 1) example_guard) = [] \<and>
   \<not> freed_once example_guard (lua_push (LUserdata 1) example_guard) 3"
proof -
  note g = example_guard_facts
  have "luv_on_read 1 5 3 example_guard =
     Inl (LuaError reentry_message, lua_push (LUserdata 1) example_guard)"
    by (rule luv_on_read_guard [OF g(1,2)]) simp_all
  then show ?thesis
    using g by (simp add: freed_once_def)
qed

section \<open>Success and failure of a completion\<close>

lemma after_request_trace:
  assumes p: "pending s req"
  shows "\<exists>s'. after_request opname req status s = Inr s' \<and>
            trace s' = trace s @
              (case registered_callback s req of
                 LFunction f \<Rightarrow>
                   [(Invoke (LFunction f)
                       (if status = -1 then [LError opname (last_error s)] else [])
                       opname, buffers s)]
               | _ \<Rightarrow> [])"
proof -
  from p obtain r c lh where
    f: "reqs s req = Some r" "ctxs s (req_data r) = Some c"
       "handles s (req_handle r) = Some lh" "1 \<le> refCount lh"
       "req \<in> live s" "req_data r \<in> live s"
       "req \<noteq> 0" "req_data r \<noteq> 0" "req \<noteq> req_data r"
    by (rule pending_cases)
  show ?thesis
    using f(1,2)
    by (simp add: after_request_run [OF f] registered_callback_def request_context_def
        callback_invocation_def)
qed

text \<open>
  C9. The completion handlers for connection arrival, connect, write and shutdown tell
  success from failure by testing whether the native status equals exactly -1: for every
  status other than -1, other negative values included, the success branch is taken
  (the event "connection" or "connect" is emitted, or the callback is invoked with no
  error argument); the error value is built for status -1 only.
\<close>

theorem status_minus_one_only:
  "(handles s h = Some lh \<longrightarrow>
      (\<exists>s'. luv_on_connection h status s = Inr s' \<and>
            trace s' = trace s @
              (if status = -1
               then dispatch (buffers s) h (listeners lh ''error'') ''error''
                      [LError ''on_connection'' (last_error s)]
               else dispatch (buffers s) h (listeners lh ''connection'') ''connection'' []))) \<and>
   (connect_pending s req \<longrightarrow>
      (\<exists>s'. luv_after_connect req status s = Inr s' \<and>
            trace s' = trace s @
              (if status = -1
               then dispatch (buffers s) (request_handle s req)
                      (listeners_of s (request_handle s req) ''error'') ''error''
                      [LError ''after_connect'' (last_error s)]
               else dispatch (buffers s) (request_handle s req)
                      (listeners_of s (request_handle s req) ''connect'') ''connect'' []))) \<and>
   (pending s req \<longrightarrow>
      (\<exists>s'. luv_after_write req status s = Inr s' \<and>
            trace s' = trace s @
              (case registered_callback s req of
                 LFunction f \<Rightarrow>
                   [(Invoke (LFunction f)
                       (if status = -1 then [LError ''after_write'' (last_error s)] else [])
                       ''after_write'', buffers s)]
               | _ \<Rightarrow> [])) \<and>
      (\<exists>s'. luv_after_shutdown req status s = Inr s' \<and>
            trace s' = trace s @
              (case registered_callback s req of
                 LFunction f \<Rightarrow>
                   [(Invoke (LFunction f)
                       (if status = -1 then [LError ''after_shutdown'' (last_error s)] else [])
                       ''after_shutdown'', buffers s)]
               | _ \<Rightarrow> [])))"
proof (intro conjI impI)
  assume "handles s h = Some lh"
  then show "\<exists>s'. luv_on_connection h status s = Inr s' \<and>
            trace s' = trace s @
              (if status = -1
               then dispatch (buffers s) h (listeners lh ''error'') ''error''
                      [LError ''on_connection'' (last_error s)]
               else dispatch (buffers s) h (listeners lh ''connection'') ''connection'' [])"
    by (simp add: luv_on_connection_run)
next
  assume "connect_pending s req"
  then obtain r lh where
    f: "reqs s req = Some r" "handles s (req_handle r) = Some lh" "req \<in> live s" "req \<noteq> 0"
    by (rule connect_pending_cases)
  show "\<exists>s'. luv_after_connect req status s = Inr s' \<and>
            trace s' = trace s @
              (if status = -1
               then dispatch (buffers s) (request_handle s req)
                      (listeners_of s (request_handle s req) ''error'') ''error''
                      [LError ''after_connect'' (last_error s)]
               else dispatch (buffers s) (request_handle s req)
                      (listeners_of s (request_handle s req) ''connect'') ''connect'' [])"
    using f
    by (simp add: luv_after_connect_run [OF f] request_handle_def listeners_of_def)
next
  assume "pending s req"
  then show "\<exists>s'. luv_after_write req status s = Inr s' \<and>
            trace s' = trace s @
              (case registered_callback s req of
                 LFunction f \<Rightarrow>
                   [(Invoke (LFunction f)
                       (if status = -1 then [LError ''after_write'' (last_error s)] else [])
                       ''after_write'', buffers s)]
               | _ \<Rightarrow> [])"
    unfolding luv_after_write_eq by (rule after_request_trace)
next
  assume "pending s req"
  then show "\<exists>s'. luv_after_shutdown req status s = Inr s' \<and>
            trace s' = trace s @
              (case registered_callback s req of
                 LFunction f \<Rightarrow>
                   [(Invoke (LFunction f)
                       (if status = -1 then [LError ''after_shutdown'' (last_error s)] else [])
                       ''after_shutdown'', buffers s)]
               | _ \<Rightarrow> [])"
    unfolding luv_after_shutdown_eq by (rule after_request_trace)
qed

theorem status_minus_one_only_witness:
  "handles example_pending 1 = Some (example_handle\<lparr>refCount := 1\<rparr>) \<and>
   connect_pending example_pending 1 \<and> pending example_pending 1 \<and>
   (\<exists>s'. luv_on_connection 1 (-2) example_pending = Inr s' \<and>
         map fst (trace s') = [Emit 1 ''connection'' []]) \<and>
   (\<exists>s'. luv_after_connect 1 (-2) example_pending = Inr s' \<and>
         map fst (trace s') = [Emit 1 ''connect'' []]) \<and>
   (\<exists>s'. luv_after_write 1 (-2) example_pending = Inr s' \<and>
         map fst (trace s') = [Invoke (LFunction 7) [] ''after_write'']) \<and>
   (\<exists>s'. luv_after_shutdown 1 (-2) example_pending = Inr s' \<and>
         map fst (trace s') = [Invoke (LFunction 7) [] ''after_shutdown''])"
proof -
  have h: "handles example_pending 1 = Some (example_handle\<lparr>refCount := 1\<rparr>)"
    by (simp add: example_pending_def)
  note q = example_pending_connect_pending
  note p = example_pending_pending
  have e: "trace example_pending = []" "request_handle example_pending 1 = 1"
    "listeners_of example_pending 1 name = []"
    "registered_callback example_pending 1 = LFunction 7"
    "listeners (example_handle\<lparr>refCount := 1\<rparr>) name = []"
    "listeners example_handle name = []" for name
    by (simp_all add: example_pending_def request_handle_def listeners_of_def
        registered_callback_def request_context_def example_handle_def)
  note t = status_minus_one_only [of example_pending 1 "example_handle\<lparr>refCount := 1\<rparr>" "-2" 1]
  from t h q p e have a: "\<exists>s'. luv_on_connection 1 (-2) example_pending = Inr s' \<and>
         map fst (trace s') = [Emit 1 ''connection'' []]"
    by (auto simp: dispatch_def)
  from t h q p e have b: "\<exists>s'. luv_after_connect 1 (-2) example_pending = Inr s' \<and>
         map fst (trace s') = [Emit 1 ''connect'' []]"
    by (auto simp: dispatch_def)
  from t h q p e have c: "\<exists>s'. luv_after_write 1 (-2) example_pending = Inr s' \<and>
         map fst (trace s') = [Invoke (LFunction 7) [] ''after_write'']"
    by auto
  from t h q p e have d: "\<exists>s'. luv_after_shutdown 1 (-2) example_pending = Inr s' \<and>
         map fst (trace s') = [Invoke (LFunction 7) [] ''after_shutdown'']"
    by auto
  from h q p a b c d show ?thesis
    by simp
qed


section \<open>Listening\<close>

lemma luv_listen_fail_run:
  assumes "index2adr s 1 = Some (LUserdata h)" and "handles s h = Some lh"
    and "index2adr s 2 = Some (LFunction cb)"
    and "luaL_optint s 3 128 = Inr backlog"
    and "uv_listen_rc \<noteq> 0"
  shows "luv_listen uv_listen_rc s =
     Inl (LuaErrorUv ''listen: %s'' (last_error s),
          s\<lparr>handles := (handles s)
                (h \<mapsto> lh\<lparr>listeners := (listeners lh)
                         (''connection'' := listeners lh ''connection'' @ [LFunction cb])\<rparr>),
            uv_log := uv_log s @ [UvListen h backlog]\<rparr>)"
  using assms
  by (simp add: luv_listen_def luv_checkudata_run luaL_checktype_function_def
      luv_register_event_def uv_listen_def)

lemma luv_listen_ok_run:
  assumes "index2adr s 1 = Some (LUserdata h)" and "handles s h = Some lh"
    and "index2adr s 2 = Some (LFunction cb)"
    and "luaL_optint s 3 128 = Inr backlog"
  shows "luv_listen 0 s =
     Inr (0, s\<lparr>handles := (handles s)
                (h \<mapsto> lh\<lparr>listeners := (listeners lh)
                         (''connection'' := listeners lh ''connection'' @ [LFunction cb]),
                       refCount := refCount lh + 1\<rparr>),
            uv_log := uv_log s @ [UvListen h backlog],
            trace := trace s @
              dispatch (buffers s) h (listeners lh ''listening'') ''listening'' []\<rparr>)"
proof -
  define s2 where
    "s2 = s\<lparr>handles := (handles s)
                (h \<mapsto> lh\<lparr>listeners := (listeners lh)
                         (''connection'' := listeners lh ''connection'' @ [LFunction cb])\<rparr>),
            uv_log := uv_log s @ [UvListen h backlog]\<rparr>"
  have st: "stack s2 = stack s"
    by (simp add: s2_def)
  have pv: "lua_pushvalue 1 s2 = lua_push (LUserdata h) s2"
    using assms(1) st by (rule lua_pushvalue_run)
  have h2: "handles s2 h = Some (lh\<lparr>listeners := (listeners lh)
                         (''connection'' := listeners lh ''connection'' @ [LFunction cb])\<rparr>)"
    by (simp add: s2_def)
  show ?thesis
    using assms
    apply (simp add: luv_listen_def luv_checkudata_run luaL_checktype_function_def
        luv_register_event_def uv_listen_def s2_def [symmetric])
    apply (simp add: pv luv_emit_event_0 [OF h2] luv_handle_ref_def)
    apply (simp add: s2_def)
    done
qed

text \<open>
  C4 (as amended). When \<open>listen(handle, callback, backlog)\<close> fails at native setup time
  (\<^verbatim>\<open>uv_listen\<close> returns nonzero), it raises an error synchronously to the caller; no
  event is emitted and no keep-alive reference is pinned; the callback was registered as
  a "connection" listener before the native call, and stays registered.
\<close>

theorem listen_setup_failure:
  assumes "index2adr s 1 = Some (LUserdata h)" and "handles s h = Some lh"
    and "index2adr s 2 = Some (LFunction cb)"
    and "luaL_optint s 3 128 = Inr backlog"
    and "uv_listen_rc \<noteq> 0"
  shows "\<exists>s'. luv_listen uv_listen_rc s = Inl (LuaErrorUv ''listen: %s'' (last_error s), s') \<and>
              trace s' = trace s \<and>
              keep_alive s' h = keep_alive s h \<and>
              uv_log s' = uv_log s @ [UvListen h backlog] \<and>
              listeners_of s' h ''connection'' =
                listeners_of s h ''connection'' @ [LFunction cb]"
  using assms(2)
  by (simp add: luv_listen_fail_run [OF assms] keep_alive_def listeners_of_def)

lemma example_listen_facts:
  "index2adr example_listen 1 = Some (LUserdata 1)"
  "handles example_listen 1 = Some example_handle"
  "index2adr example_listen 2 = Some (LFunction 9)"
  "luaL_optint example_listen 3 128 = Inr 128"
  "last_error example_listen = UV_ERRNO 5"
  "trace example_listen = []" "uv_log example_listen = []"
  "keep_alive example_listen 1 = 0"
  "listeners_of example_listen 1 ''connection'' = []"
  by (simp_all add: example_listen_def example_world_def example_handle_def index2adr_def
      luaL_optint_def c_int_def keep_alive_def listeners_of_def)

theorem listen_setup_failure_witness:
  "index2adr example_listen 1 = Some (LUserdata 1) \<and>
   handles example_listen 1 = Some example_handle \<and>
   index2adr example_listen 2 = Some (LFunction 9) \<and>
   luaL_optint example_listen 3 128 = Inr 128 \<and>
   (\<exists>s'. luv_listen (-1) example_listen = Inl (LuaErrorUv ''listen: %s'' (UV_ERRNO 5), s') \<and>
         trace s' = [] \<and> keep_alive s' 1 = 0 \<and> uv_log s' = [UvListen 1 128] \<and>
         listeners_of s' 1 ''connection'' = [LFunction 9])"
proof -
  note l = example_listen_facts
  from listen_setup_failure [OF l(1,2,3,4), of "-1"] l(5,6,7,8,9)
  have "\<exists>s'. luv_listen (-1) example_listen = Inl (LuaErrorUv ''listen: %s'' (UV_ERRNO 5), s') \<and>
         trace s' = [] \<and> keep_alive s' 1 = 0 \<and> uv_log s' = [UvListen 1 128] \<and>
         listeners_of s' 1 ''connection'' = [LFunction 9]"
    by auto
  with l(1,2,3,4) show ?thesis
    by simp
qed

text \<open>
  C4 as stated fails in its second half: in the example the handle has no "connection"
  listener before the call; the native call fails; the error is raised, and in the
  world it leaves behind the callback is a "connection" listener of the handle.
\<close>

theorem listen_failure_registration_counterexample:
  "listeners_of example_listen 1 ''connection'' = [] \<and>
   luv_listen (-1) example_listen =
     Inl (LuaErrorUv ''listen: %s'' (UV_ERRNO 5), example_listen_failed) \<and>
   listeners_of example_listen_failed 1 ''connection'' = [LFunction 9]"
proof -
  note l = example_listen_facts
  have "luv_listen (-1) example_listen =
     Inl (LuaErrorUv ''listen: %s'' (UV_ERRNO 5), example_listen_failed)"
    unfolding luv_listen_fail_run [OF l(1,2,3,4), of "-1", simplified]
    by (simp add: example_listen_failed_def l(5))
       (simp add: example_listen_def example_world_def example_handle_def)
  moreover have "listeners_of example_listen_failed 1 ''connection'' = [LFunction 9]"
    by (simp add: example_listen_failed_def listeners_of_def example_handle_def)
  ultimately show ?thesis
    using l(9) by simp
qed

section \<open>The environment getter\<close>

lemma c_str_idem [simp]: "c_str (c_str str) = c_str str"
  by (simp add: c_str_def takeWhile_idem)

lemma getenv_None_iff:
  "getenv env name = None \<longleftrightarrow>
     (c_str name = [] \<or>
      (\<forall>e \<in> set env. take (Suc (length (c_str name))) (c_str e) \<noteq> c_str name @ ''=''))"
  by (induction env) auto

lemma luaL_checkstring_Inr:
  assumes "luaL_checkstring s i = Inr (name, s1)"
  shows "c_str name = name" and "environ s1 = environ s" and "next_buf s1 = next_buf s"
    and "buffers s1 = buffers s"
  using assms
  by (cases "index2adr s i"; auto simp: luaL_checkstring_def set_index_def Let_def
      split: lua_value.splits)+

text \<open>The number format on both sides of the limit of plain digits.\<close>

lemma lua_number2str_examples:
  "lua_number2str 99999999999999 = ''99999999999999''"
  "lua_number2str 100000000000000 = ''1e+14''"
  "lua_number2str 1000000000000000 = ''1e+15''"
  "lua_number2str (- 123456789012345) = ''-1.2345678901234e+14''"
  "lua_number2str 999999999999995 = ''1e+15''"
  by (simp_all add: lua_number2str_def format_g14_def round_half_even_def strip_zeros_def
      Let_def)

text \<open>
  C10. On POSIX, \<^verbatim>\<open>lenv_get\<close> requires the looked-up variable to exist: it passes the
  result of \<^verbatim>\<open>getenv(name)\<close> to \<^verbatim>\<open>strlen\<close> and \<^verbatim>\<open>buffer_wrap\<close> without a test, so for every
  name not present in the environment the NULL result is dereferenced, and no nil or
  absent value is returned to the caller. The name is the C string that \<^verbatim>\<open>getenv\<close>
  receives: for a string argument, the part before its first NUL. It is not present
  when it is empty or no entry of the environment starts with it followed by \<open>=\<close>. For
  a name that is present, one buffer holding the value is returned.
\<close>

theorem lenv_get_missing_variable:
  assumes "luaL_checkstring s 1 = Inr (name, s1)"
  shows "(\<forall>str. index2adr s 1 = Some (LString str) \<longrightarrow> name = c_str str \<and> s1 = s) \<and>
         ((name = [] \<or>
           (\<forall>e \<in> set (environ s). take (Suc (length name)) (c_str e) \<noteq> name @ ''='')) \<longrightarrow>
            getenv (environ s) name = None \<and> lenv_get s = Inl (NullDeref, s1)) \<and>
         (\<forall>val. getenv (environ s) name = Some val \<longrightarrow>
            (\<exists>s'. lenv_get s = Inr (1, s') \<and>
                  index2adr s' (-1) = Some (LBuffer (next_buf s)) \<and>
                  buffers s' (next_buf s) = Some \<lparr>bdata = val, isConst = 0\<rparr>))"
proof (intro conjI impI allI)
  fix str
  assume "index2adr s 1 = Some (LString str)"
  with assms show "name = c_str str" and "s1 = s"
    by (simp_all add: luaL_checkstring_def)
next
  note facts = luaL_checkstring_Inr [OF assms]
  assume "name = [] \<or>
    (\<forall>e \<in> set (environ s). take (Suc (length name)) (c_str e) \<noteq> name @ ''='')"
  then show none: "getenv (environ s) name = None"
    unfolding getenv_None_iff facts(1) .
  show "lenv_get s = Inl (NullDeref, s1)"
    using assms none by (simp add: lenv_get_def facts(2))
next
  fix val
  note facts = luaL_checkstring_Inr [OF assms]
  assume "getenv (environ s) name = Some val"
  then show "\<exists>s'. lenv_get s = Inr (1, s') \<and>
                  index2adr s' (-1) = Some (LBuffer (next_buf s)) \<and>
                  buffers s' (next_buf s) = Some \<lparr>bdata = val, isConst = 0\<rparr>"
    using assms
    by (simp add: lenv_get_def facts(2,3) buffer_new_def buffer_wrap_def lua_push_def
        index2adr_def)
qed

theorem lenv_get_missing_variable_witness:
  "luaL_checkstring example_env 1 = Inr (''SHELL'', example_env) \<and>
   environ example_env = [''HOME=/root''] \<and>
   getenv (environ example_env) ''SHELL'' = None \<and>
   lenv_get example_env = Inl (NullDeref, example_env) \<and>
   luaL_checkstring (example_env\<lparr>stack := [LString ''HOME'']\<rparr>) 1 =
     Inr (''HOME'', example_env\<lparr>stack := [LString ''HOME'']\<rparr>) \<and>
   getenv (environ (example_env\<lparr>stack := [LString ''HOME'']\<rparr>)) ''HOME'' = Some ''/root'' \<and>
   (\<exists>s'. lenv_get (example_env\<lparr>stack := [LString ''HOME'']\<rparr>) = Inr (1, s') \<and>
         buffers s' 2 = Some \<lparr>bdata = ''/root'', isConst = 0\<rparr>) \<and>
   luaL_checkstring (example_env\<lparr>stack := [LString [CHR ''A'', CHR 0x00, CHR ''B'']],
                                 environ := [''A=1'']\<rparr>) 1 =
     Inr (''A'', example_env\<lparr>stack := [LString [CHR ''A'', CHR 0x00, CHR ''B'']],
                              environ := [''A=1'']\<rparr>) \<and>
   (\<exists>s'. lenv_get (example_env\<lparr>stack := [LString [CHR ''A'', CHR 0x00, CHR ''B'']],
                              environ := [''A=1'']\<rparr>) = Inr (1, s') \<and>
         buffers s' 2 = Some \<lparr>bdata = ''1'', isConst = 0\<rparr>) \<and>
   luaL_checkstring (example_env\<lparr>stack := [LString []], environ := [''=x'']\<rparr>) 1 =
     Inr ([], example_env\<lparr>stack := [LString []], environ := [''=x'']\<rparr>) \<and>
   lenv_get (example_env\<lparr>stack := [LString []], environ := [''=x'']\<rparr>) =
     Inl (NullDeref, example_env\<lparr>stack := [LString []], environ := [''=x'']\<rparr>)"
proof -
  define home where "home = example_env\<lparr>stack := [LString ''HOME'']\<rparr>"
  define nul where "nul = example_env\<lparr>stack := [LString [CHR ''A'', CHR 0x00, CHR ''B'']],
                                       environ := [''A=1'']\<rparr>"
  define empty where "empty = example_env\<lparr>stack := [LString []], environ := [''=x'']\<rparr>"
  have a: "luaL_checkstring example_env 1 = Inr (''SHELL'', example_env)"
    by (simp add: luaL_checkstring_def index2adr_def example_env_def example_world_def c_str_def)
  have e: "environ example_env = [''HOME=/root'']"
    by (simp add: example_env_def example_world_def)
  have m: "\<forall>e \<in> set (environ example_env).
      take (Suc (length ''SHELL'')) (c_str e) \<noteq> ''SHELL'' @ ''=''"
    by (simp add: e c_str_def)
  from lenv_get_missing_variable [OF a] m
  have missing: "getenv (environ example_env) ''SHELL'' = None"
    "lenv_get example_env = Inl (NullDeref, example_env)"
    by blast+
  have b: "luaL_checkstring home 1 = Inr (''HOME'', home)"
    by (simp add: luaL_checkstring_def index2adr_def home_def c_str_def)
  have v: "getenv (environ home) ''HOME'' = Some ''/root''"
    by (simp add: e home_def c_str_def)
  have n: "next_buf home = 2" "next_buf nul = 2"
    by (simp_all add: home_def nul_def example_env_def example_world_def)
  from lenv_get_missing_variable [OF b] v n
  have present: "\<exists>s'. lenv_get home = Inr (1, s') \<and>
         buffers s' 2 = Some \<lparr>bdata = ''/root'', isConst = 0\<rparr>"
    by auto
  have c: "luaL_checkstring nul 1 = Inr (''A'', nul)"
    by (simp add: luaL_checkstring_def index2adr_def nul_def c_str_def)
  have w: "getenv (environ nul) ''A'' = Some ''1''"
    by (simp add: nul_def c_str_def)
  from lenv_get_missing_variable [OF c] w n
  have cut: "\<exists>s'. lenv_get nul = Inr (1, s') \<and>
         buffers s' 2 = Some \<lparr>bdata = ''1'', isConst = 0\<rparr>"
    by auto
  have d: "luaL_checkstring empty 1 = Inr ([], empty)"
    by (simp add: luaL_checkstring_def index2adr_def empty_def c_str_def)
  from lenv_get_missing_variable [OF d]
  have fault: "lenv_get empty = Inl (NullDeref, empty)"
    by blast
  from a e missing b v present c cut d fault show ?thesis
    unfolding home_def nul_def empty_def by simp
qed

section \<open>The buffer of a write in flight\<close>

lemma same_core_refl [simp]: "same_core s s"
  by (simp add: same_core_def)

lemma same_core_sym: "same_core s t \<Longrightarrow> same_core t s"
  by (simp add: same_core_def)

lemma same_core_trans: "same_core s t \<Longrightarrow> same_core t u \<Longrightarrow> same_core s u"
  by (simp add: same_core_def)

lemma reqs_data_eq:
  assumes "map_option req_data (reqs t a) = map_option req_data (reqs s a)"
  shows "(reqs t a = None \<longleftrightarrow> reqs s a = None)"
    and "reqs t a = Some q \<Longrightarrow> \<exists>q'. reqs s a = Some q' \<and> req_data q' = req_data q"
  using assms by (cases "reqs s a"; cases "reqs t a"; simp)+

lemma same_core_inv:
  assumes c: "same_core s t" and i: "write_inv w s"
  shows "write_inv w t"
proof -
  from c have rq: "\<And>a. map_option req_data (reqs t a) = map_option req_data (reqs s a)"
    and eqs: "ctxs t = ctxs s" "registry t = registry s"
      "\<And>b. bytes_in (buffers t) b = bytes_in (buffers s) b"
      "live t = live s" "heap_top t = heap_top s" "ref_top t = ref_top s" "next_buf t = next_buf s"
    by (simp_all add: same_core_def)
  have rc: "request_context t (w_req w) = request_context s (w_req w)"
    using rq [of "w_req w"]
    by (cases "reqs s (w_req w)"; cases "reqs t (w_req w)"; simp add: request_context_def)
  have held: "write_held w t"
    using i by (simp add: write_inv_def write_held_def rc eqs)
  have none: "reqs t (w_cbs w) = None"
    using i reqs_data_eq(1) [OF rq, of "w_cbs w"] by (simp add: write_inv_def write_apart_def)
  have others: "req_data q \<noteq> w_cbs w \<and> req_data q \<noteq> w_req w"
    if "reqs t a = Some q" "a \<noteq> w_req w" for a q
  proof -
    from reqs_data_eq(2) [OF rq that(1)] obtain q' where
      "reqs s a = Some q'" "req_data q' = req_data q"
      by blast
    with i that(2) show ?thesis
      by (auto simp: write_inv_def write_apart_def)
  qed
  have apart: "write_apart w t"
    using i none others by (auto simp: write_inv_def write_apart_def eqs)
  from held apart show ?thesis
    by (simp add: write_inv_def)
qed

lemma same_core_inv_iff: "same_core s t \<Longrightarrow> write_inv w t = write_inv w s"
  using same_core_inv same_core_sym by blast

text \<open>The primitives that leave the core alone.\<close>

lemma same_core_pure:
  "same_core s (s\<lparr>stack := stk\<rparr>)"
  "same_core s (s\<lparr>last_error := err\<rparr>)"
  "same_core s (lua_push v s)"
  "same_core s (lua_pop n s)"
  "same_core s (lua_remove i s)"
  "same_core s (lua_pushvalue i s)"
  "same_core s (lua_pushinteger k s)"
  "same_core s (lua_rawgeti_registry r s)"
  "same_core s (luv_push_async_error e src s)"
  "same_core s (luv_acall n src s)"
  "same_core s (uv_read_start h s)"
  "same_core s (uv_read_stop h s)"
  "same_core s (uv_listen h k s)"
  "same_core s (uv_accept h h' s)"
  by (simp_all add: same_core_def lua_push_def lua_pop_def lua_remove_def lua_pushvalue_def
      lua_pushinteger_def lua_rawgeti_registry_def luv_push_async_error_def luv_acall_def
      uv_read_start_def uv_read_stop_def uv_listen_def uv_accept_def Let_def)

lemma same_core_set_req_handle: "same_core s (set_req_handle a h s)"
  by (simp add: same_core_def set_req_handle_def split: option.splits)

lemma same_core_uv_write: "same_core s (uv_write a h b n s)"
  using same_core_set_req_handle [of s a h]
  by (simp add: same_core_def uv_write_def)

lemma same_core_uv_shutdown: "same_core s (uv_shutdown a h s)"
  using same_core_set_req_handle [of s a h]
  by (simp add: same_core_def uv_shutdown_def)

lemmas inv_pure [simp] =
  same_core_pure [THEN same_core_inv_iff] same_core_uv_write [THEN same_core_inv_iff]
  same_core_uv_shutdown [THEN same_core_inv_iff]

lemma after_Inr [simp]: "world_after (Inr t) = t"
  by (simp add: world_after_def)

lemma after_Inl [simp]: "world_after (Inl (e, t)) = t"
  by (simp add: world_after_def)

lemma after_call_Inr [simp]: "world_after_call (Inr (n, t)) = t"
  by (simp add: world_after_call_def)

lemma after_call_Inl [simp]: "world_after_call (Inl (e, t)) = t"
  by (simp add: world_after_call_def)

text \<open>The fallible primitives that leave the core alone, whatever their outcome.\<close>

lemma same_core_luv_emit_event: "same_core s (world_after (luv_emit_event name n s))"
  by (simp add: luv_emit_event_def world_after_def same_core_def lua_pop_def Let_def
      split: option.splits lua_value.splits)

lemma same_core_luv_handle_get_lua: "same_core s (world_after (luv_handle_get_lua h s))"
  by (simp add: luv_handle_get_lua_def world_after_def same_core_pure split: option.splits)

lemma same_core_luv_handle_ref: "same_core s (world_after (luv_handle_ref h s))"
  by (simp add: luv_handle_ref_def world_after_def same_core_def split: option.splits)

lemma same_core_luv_handle_unref: "same_core s (world_after (luv_handle_unref h s))"
  by (simp add: luv_handle_unref_def world_after_def same_core_def split: option.splits)

lemma same_core_luv_register_event:
  "same_core s (world_after (luv_register_event i name j s))"
  by (simp add: luv_register_event_def world_after_def same_core_def Let_def
      split: option.splits lua_value.splits)

lemma same_core_luv_io_ctx_callback_rawgeti:
  "same_core s (world_after (luv_io_ctx_callback_rawgeti a s))"
  by (simp add: luv_io_ctx_callback_rawgeti_def same_core_pure split: option.splits)

lemma inv_after_same_core:
  assumes "same_core s (world_after m)"
  shows "write_inv w s \<Longrightarrow> m = Inr t \<Longrightarrow> write_inv w t"
    and "write_inv w s \<Longrightarrow> m = Inl (e, t) \<Longrightarrow> write_inv w t"
  using assms same_core_inv by auto

lemmas inv_luv_emit_event = inv_after_same_core [OF same_core_luv_emit_event]
lemmas inv_luv_handle_get_lua = inv_after_same_core [OF same_core_luv_handle_get_lua]
lemmas inv_luv_handle_ref = inv_after_same_core [OF same_core_luv_handle_ref]
lemmas inv_luv_handle_unref = inv_after_same_core [OF same_core_luv_handle_unref]
lemmas inv_luv_register_event = inv_after_same_core [OF same_core_luv_register_event]
lemmas inv_luv_io_ctx_callback_rawgeti =
  inv_after_same_core [OF same_core_luv_io_ctx_callback_rawgeti]








lemma after_then_do:
  assumes "\<And>e t. m = Inl (e, t) \<Longrightarrow> P t"
    and "\<And>x. m = Inr x \<Longrightarrow> P (world_after (f x))"
  shows "P (world_after (then_do m f))"
  using assms by (cases m) (auto simp: then_do_def)

lemma after_call_then_do:
  assumes "\<And>e t. m = Inl (e, t) \<Longrightarrow> P t"
    and "\<And>x. m = Inr x \<Longrightarrow> P (world_after_call (f x))"
  shows "P (world_after_call (then_do m f))"
  using assms by (cases m) (auto simp: then_do_def)


section \<open>Outcomes\<close>

lemma outcome_Inr [simp]: "outcome E Q (Inr x) = Q x"
  by (simp add: outcome_def)

lemma outcome_Inl [simp]: "outcome E Q (Inl (e, t)) = E t"
  by (simp add: outcome_def)


lemma outcome_weaken:
  assumes "outcome E Q m" and "\<And>x. Q x \<Longrightarrow> R x"
  shows "outcome E R m"
  using assms by (cases m) auto







section \<open>The primitives that change the core\<close>


















section \<open>Every function of the bridge keeps the invariant\<close>






















end
